theory Spec2Isabelle
  imports Main
begin

section \<open>Values, instances and the store\<close>

text \<open>
  The embedding of \<^verbatim>\<open>exceptiongroup/__init__.py\<close> (class \<^verbatim>\<open>ExceptionGroup\<close>).

  Python objects have identity and mutable attributes, and the constructor copies the
  lists it is given, so the model keeps an explicit store: list objects and exception
  instances live at addresses, and every method takes the store and returns it.
  An address is an index into the store; allocation appends, so a new address is the
  length of the store before the allocation.

  The values that can occur as a child, a source label, a message or a method argument
  are \<^verbatim>\<open>None\<close>, integers, strings and references to exception instances. An exception
  instance is compared by identity (\<^verbatim>\<open>BaseException\<close> defines no \<^verbatim>\<open>__eq__\<close>), the
  other values by value, so Python's \<^verbatim>\<open>==\<close> on these values is HOL's equality.
  The \<^verbatim>\<open>exceptions\<close> and \<^verbatim>\<open>sources\<close> arguments of the constructor are references to
  list objects, as the docstring of the class has them.

  Outside the model: exception classes that override \<^verbatim>\<open>__eq__\<close>, \<^verbatim>\<open>__init__\<close> or
  \<^verbatim>\<open>__repr__\<close>; predicates that raise or assign; what the interpreter does to
  \<^verbatim>\<open>__context__\<close> and \<^verbatim>\<open>__traceback__\<close> while an exception propagates. The host's
  \<^verbatim>\<open>repr\<close> of a child is a parameter of the functions that format a message.
\<close>

type_synonym addr = nat

datatype pyval = PNone | PInt int | PStr string | PExc addr

text \<open>An element of \<^verbatim>\<open>BaseException.args\<close>: a value or a reference to a list object.\<close>

datatype pyarg = Val pyval | ListRef addr

text \<open>
  An instance of \<^verbatim>\<open>BaseException\<close> or of a subclass. \<open>mro\<close> is the names of the classes
  of \<^verbatim>\<open>type(self).__mro__\<close>. The four \<open>exc_\<close>/\<open>suppress_context\<close> fields are the slots
  \<^verbatim>\<open>__traceback__\<close>, \<^verbatim>\<open>__context__\<close>, \<^verbatim>\<open>__cause__\<close>, \<^verbatim>\<open>__suppress_context__\<close>.
  \<open>message\<close>, \<open>exceptions\<close> and \<open>sources\<close> are the attributes that
  \<^verbatim>\<open>ExceptionGroup.__init__\<close> assigns (absent until assigned); \<open>others\<close> is every other
  entry of the instance's \<^verbatim>\<open>__dict__\<close>.
\<close>

record pyobj =
  mro :: "string list"
  args :: "pyarg list"
  exc_traceback :: "addr option"
  exc_context :: "addr option"
  exc_cause :: "addr option"
  suppress_context :: bool
  message :: "pyval option"
  exceptions :: "addr option"
  sources :: "addr option"
  others :: "(string \<times> pyval) list"

text \<open>\<open>handling\<close> is \<^verbatim>\<open>sys.exc_info()[1]\<close>: the exception being handled, if any.\<close>

record state =
  lists :: "pyval list list"
  objs :: "pyobj list"
  handling :: "addr option"

datatype error = TypeError string | ValueError string | AttributeError string

definition get_inst :: "state \<Rightarrow> addr \<Rightarrow> pyobj option" where
  "get_inst s a = (if a < length (objs s) then Some (objs s ! a) else None)"

definition get_list :: "state \<Rightarrow> addr \<Rightarrow> pyval list option" where
  "get_list s a = (if a < length (lists s) then Some (lists s ! a) else None)"

definition new_list :: "state \<Rightarrow> pyval list \<Rightarrow> state \<times> addr" where
  "new_list s xs = (s\<lparr>lists := lists s @ [xs]\<rparr>, length (lists s))"

definition new_inst :: "state \<Rightarrow> pyobj \<Rightarrow> state \<times> addr" where
  "new_inst s ob = (s\<lparr>objs := objs s @ [ob]\<rparr>, length (objs s))"

definition upd_inst :: "state \<Rightarrow> addr \<Rightarrow> (pyobj \<Rightarrow> pyobj) \<Rightarrow> state" where
  "upd_inst s a f = s\<lparr>objs := (objs s)[a := f (objs s ! a)]\<rparr>"

text \<open>Assignment to a list object from outside (the caller mutating its own list).\<close>

definition set_list :: "state \<Rightarrow> addr \<Rightarrow> pyval list \<Rightarrow> state" where
  "set_list s a xs = s\<lparr>lists := (lists s)[a := xs]\<rparr>"

section \<open>Host operations\<close>

text \<open>\<^verbatim>\<open>isinstance(exc, BaseException)\<close>: true exactly of references to exception instances.\<close>

fun is_BaseException :: "pyval \<Rightarrow> bool" where
  "is_BaseException (PExc a) = True"
| "is_BaseException v = False"

text \<open>\<^verbatim>\<open>type(v).__mro__\<close> as class names.\<close>

fun mro_of :: "state \<Rightarrow> pyval \<Rightarrow> string list" where
  "mro_of s PNone = [''NoneType'', ''object'']"
| "mro_of s (PInt i) = [''int'', ''object'']"
| "mro_of s (PStr t) = [''str'', ''object'']"
| "mro_of s (PExc a) = (case get_inst s a of Some ob \<Rightarrow> mro ob | None \<Rightarrow> [])"

text \<open>\<^verbatim>\<open>isinstance(v, (T1, ..., Tn))\<close>: the class of \<open>v\<close> is one of these or a subclass.\<close>

definition py_isinstance :: "state \<Rightarrow> pyval \<Rightarrow> string list \<Rightarrow> bool" where
  "py_isinstance s v cs = list_ex (\<lambda>c. c \<in> set (mro_of s v)) cs"

text \<open>\<^verbatim>\<open>list(x)\<close> of a list object: its elements; an address that holds no list stands for
  an argument that is not iterable.\<close>

definition py_list :: "state \<Rightarrow> addr \<Rightarrow> error + pyval list" where
  "py_list s a = (case get_list s a of
                    None \<Rightarrow> Inl (TypeError ''object is not iterable'')
                  | Some xs \<Rightarrow> Inr xs)"

text \<open>\<^verbatim>\<open>str(n)\<close> of a length, as \<^verbatim>\<open>"{}".format(len(...))\<close> renders it.\<close>

fun str_nat :: "nat \<Rightarrow> string" where
  "str_nat n = (if n < 10 then [''0123456789'' ! n]
                else str_nat (n div 10) @ [''0123456789'' ! (n mod 10)])"

declare str_nat.simps [simp del]

text \<open>\<^verbatim>\<open>", ".join(ss)\<close>.\<close>

fun join :: "string list \<Rightarrow> string" where
  "join [] = []"
| "join [x] = x"
| "join (x # y # ys) = x @ '', '' @ join (y # ys)"

text \<open>
  The attribute setters of \<^verbatim>\<open>BaseException\<close>. Assigning \<^verbatim>\<open>__cause__\<close> also sets
  \<^verbatim>\<open>__suppress_context__\<close> to true; the other three assign one slot.
\<close>

definition set_traceback :: "state \<Rightarrow> addr \<Rightarrow> addr option \<Rightarrow> state" where
  "set_traceback s dst v = upd_inst s dst (\<lambda>ob. ob\<lparr>exc_traceback := v\<rparr>)"

definition set_context :: "state \<Rightarrow> addr \<Rightarrow> addr option \<Rightarrow> state" where
  "set_context s dst v = upd_inst s dst (\<lambda>ob. ob\<lparr>exc_context := v\<rparr>)"

definition set_cause :: "state \<Rightarrow> addr \<Rightarrow> addr option \<Rightarrow> state" where
  "set_cause s dst v = upd_inst s dst (\<lambda>ob. ob\<lparr>exc_cause := v, suppress_context := True\<rparr>)"

definition set_suppress_context :: "state \<Rightarrow> addr \<Rightarrow> bool \<Rightarrow> state" where
  "set_suppress_context s dst v = upd_inst s dst (\<lambda>ob. ob\<lparr>suppress_context := v\<rparr>)"

text \<open>
  \<^verbatim>\<open>BaseException.__new__\<close>: a new instance of class \<open>cls\<close> holds the constructor's
  arguments as \<^verbatim>\<open>args\<close>; its chain slots are empty and its \<^verbatim>\<open>__dict__\<close> has no entry.
\<close>

definition BaseException_new :: "string list \<Rightarrow> pyarg list \<Rightarrow> pyobj" where
  "BaseException_new cls as =
     \<lparr>mro = cls, args = as,
      exc_traceback = None, exc_context = None, exc_cause = None,
      suppress_context = False, message = None, exceptions = None,
      sources = None, others = []\<rparr>"

section \<open>ExceptionGroup\<close>

text \<open>
  The loop of \<^verbatim>\<open>__init__\<close> over \<^verbatim>\<open>self.exceptions\<close>: the first element that is not an
  exception instance, if there is one (the loop raises there).
\<close>

fun first_non_exception :: "pyval list \<Rightarrow> pyval option" where
  "first_non_exception [] = None"
| "first_non_exception (exc # rest) =
     (if \<not> is_BaseException exc then Some exc else first_non_exception rest)"

text \<open>
  \<^verbatim>\<open>cls(message, exceptions, sources)\<close> for \<open>cls\<close> the class \<^verbatim>\<open>ExceptionGroup\<close> or a
  subclass that keeps its \<^verbatim>\<open>__init__\<close>. \<open>repr\<close> is the host's \<^verbatim>\<open>repr\<close> on child values.
  The instance is allocated (\<^verbatim>\<open>super().__init__\<close> assigns the same \<^verbatim>\<open>args\<close> again), then
  \<^verbatim>\<open>__init__\<close> runs statement by statement; a raise leaves the store as it is at
  that point and returns no reference.
\<close>

definition ExceptionGroup ::
  "(state \<Rightarrow> pyval \<Rightarrow> string) \<Rightarrow> state \<Rightarrow> string list \<Rightarrow> pyval \<Rightarrow> addr \<Rightarrow> addr
     \<Rightarrow> state \<times> (error + addr)" where
  "ExceptionGroup repr s cls msg excs srcs =
     (let (s1, self) = new_inst s (BaseException_new cls [Val msg, ListRef excs, ListRef srcs])
      in case py_list s1 excs of
           Inl e \<Rightarrow> (s1, Inl e)
         | Inr xs \<Rightarrow>
             (let (s2, l1) = new_list s1 xs;
                  s3 = upd_inst s2 self (\<lambda>ob. ob\<lparr>exceptions := Some l1\<rparr>)
              in case first_non_exception xs of
                   Some exc \<Rightarrow>
                     (s3, Inl (TypeError (''Expected an exception object, not '' @ repr s3 exc)))
                 | None \<Rightarrow>
                     (let s4 = upd_inst s3 self (\<lambda>ob. ob\<lparr>message := Some msg\<rparr>)
                      in case py_list s4 srcs of
                           Inl e \<Rightarrow> (s4, Inl e)
                         | Inr ys \<Rightarrow>
                             (let (s5, l2) = new_list s4 ys;
                                  s6 = upd_inst s5 self (\<lambda>ob. ob\<lparr>sources := Some l2\<rparr>)
                              in if length ys \<noteq> length xs
                                 then (s6, Inl (ValueError
                                        (''different number of sources ('' @ str_nat (length ys)
                                         @ '') and exceptions ('' @ str_nat (length xs) @ '')'')))
                                 else (s6, Inr self)))))"

text \<open>Attribute reads on \<^verbatim>\<open>self\<close>; a missing attribute raises \<^verbatim>\<open>AttributeError\<close>.\<close>

definition self_message :: "state \<Rightarrow> addr \<Rightarrow> error + pyval" where
  "self_message s self =
     (case get_inst s self of
        None \<Rightarrow> Inl (AttributeError ''message'')
      | Some ob \<Rightarrow> (case message ob of
                     None \<Rightarrow> Inl (AttributeError ''message'')
                   | Some m \<Rightarrow> Inr m))"

definition self_exceptions :: "state \<Rightarrow> addr \<Rightarrow> error + addr" where
  "self_exceptions s self =
     (case get_inst s self of
        None \<Rightarrow> Inl (AttributeError ''exceptions'')
      | Some ob \<Rightarrow> (case exceptions ob of
                     None \<Rightarrow> Inl (AttributeError ''exceptions'')
                   | Some l \<Rightarrow> Inr l))"

definition self_sources :: "state \<Rightarrow> addr \<Rightarrow> error + addr" where
  "self_sources s self =
     (case get_inst s self of
        None \<Rightarrow> Inl (AttributeError ''sources'')
      | Some ob \<Rightarrow> (case sources ob of
                     None \<Rightarrow> Inl (AttributeError ''sources'')
                   | Some l \<Rightarrow> Inr l))"

text \<open>The elements of \<^verbatim>\<open>self.exceptions\<close> and of \<^verbatim>\<open>self.sources\<close>.\<close>

definition exceptions_of :: "state \<Rightarrow> addr \<Rightarrow> error + pyval list" where
  "exceptions_of s self =
     (case self_exceptions s self of Inl e \<Rightarrow> Inl e | Inr l \<Rightarrow> py_list s l)"

definition sources_of :: "state \<Rightarrow> addr \<Rightarrow> error + pyval list" where
  "sources_of s self =
     (case self_sources s self of Inl e \<Rightarrow> Inl e | Inr l \<Rightarrow> py_list s l)"

text \<open>\<^verbatim>\<open>type(self)\<close> / \<^verbatim>\<open>self.__class__\<close>.\<close>

definition type_of :: "state \<Rightarrow> addr \<Rightarrow> string list" where
  "type_of s self = mro_of s (PExc self)"

text \<open>\<^verbatim>\<open>__str__\<close> and \<^verbatim>\<open>__repr__\<close>.\<close>

definition str_group :: "(state \<Rightarrow> pyval \<Rightarrow> string) \<Rightarrow> state \<Rightarrow> addr \<Rightarrow> error + string" where
  "str_group repr s self =
     (case exceptions_of s self of
        Inl e \<Rightarrow> Inl e
      | Inr xs \<Rightarrow> Inr (join (map (repr s) xs)))"

definition repr_group :: "(state \<Rightarrow> pyval \<Rightarrow> string) \<Rightarrow> state \<Rightarrow> addr \<Rightarrow> error + string" where
  "repr_group repr s self =
     (case str_group repr s self of
        Inl e \<Rightarrow> Inl e
      | Inr t \<Rightarrow> Inr (''<ExceptionGroup: '' @ t @ ''>''))"

text \<open>
  \<^verbatim>\<open>_copy_magic_attrs\<close>: four assignments to \<open>dst\<close>, in the order of the source, each
  reading \<open>self\<close> in the store as the previous assignment left it.
\<close>

definition slot :: "state \<Rightarrow> addr \<Rightarrow> (pyobj \<Rightarrow> 'a) \<Rightarrow> 'a \<Rightarrow> 'a" where
  "slot s a f d = (case get_inst s a of Some ob \<Rightarrow> f ob | None \<Rightarrow> d)"

definition copy_magic_attrs :: "state \<Rightarrow> addr \<Rightarrow> addr \<Rightarrow> state" where
  "copy_magic_attrs s self dst =
     (let s1 = set_traceback s dst (slot s self exc_traceback None);
          s2 = set_context s1 dst (slot s1 self exc_context None);
          s3 = set_cause s2 dst (slot s2 self exc_cause None);
          s4 = set_suppress_context s3 dst (slot s3 self suppress_context False)
      in s4)"

text \<open>\<^verbatim>\<open>__copy__\<close>.\<close>

definition copy :: "(state \<Rightarrow> pyval \<Rightarrow> string) \<Rightarrow> state \<Rightarrow> addr \<Rightarrow> state \<times> (error + addr)" where
  "copy repr s self =
     (case self_message s self of
        Inl e \<Rightarrow> (s, Inl e)
      | Inr m \<Rightarrow>
      (case self_exceptions s self of
        Inl e \<Rightarrow> (s, Inl e)
      | Inr el \<Rightarrow>
      (case self_sources s self of
        Inl e \<Rightarrow> (s, Inl e)
      | Inr sl \<Rightarrow>
      (case ExceptionGroup repr s (type_of s self) m el sl of
        (s', Inl e) \<Rightarrow> (s', Inl e)
      | (s', Inr new_group) \<Rightarrow> (copy_magic_attrs s' self new_group, Inr new_group)))))"

text \<open>\<^verbatim>\<open>add(exception, source="")\<close>.\<close>

definition add ::
  "(state \<Rightarrow> pyval \<Rightarrow> string) \<Rightarrow> state \<Rightarrow> addr \<Rightarrow> pyval \<Rightarrow> pyval \<Rightarrow> state \<times> (error + addr)" where
  "add repr s self exception source =
     (case self_message s self of
        Inl e \<Rightarrow> (s, Inl e)
      | Inr m \<Rightarrow>
      (case exceptions_of s self of
        Inl e \<Rightarrow> (s, Inl e)
      | Inr xs \<Rightarrow>
      (let (s1, t1) = new_list s (xs @ [exception])
       in case sources_of s1 self of
            Inl e \<Rightarrow> (s1, Inl e)
          | Inr ys \<Rightarrow>
          (let (s2, t2) = new_list s1 (ys @ [source])
           in case ExceptionGroup repr s2 (type_of s2 self) m t1 t2 of
                (s', Inl e) \<Rightarrow> (s', Inl e)
              | (s', Inr new) \<Rightarrow> (copy_magic_attrs s' self new, Inr new)))))"

text \<open>\<^verbatim>\<open>list.index(x)\<close>: the first position whose element equals \<open>x\<close>.\<close>

fun index :: "pyval list \<Rightarrow> pyval \<Rightarrow> nat option" where
  "index [] x = None"
| "index (y # ys) x = (if y = x then Some 0 else map_option Suc (index ys x))"

text \<open>\<^verbatim>\<open>remove(exception)\<close>.\<close>

definition remove ::
  "(state \<Rightarrow> pyval \<Rightarrow> string) \<Rightarrow> state \<Rightarrow> addr \<Rightarrow> pyval \<Rightarrow> state \<times> (error + addr)" where
  "remove repr s self exception =
     (case exceptions_of s self of
        Inl e \<Rightarrow> (s, Inl e)
      | Inr xs \<Rightarrow>
      (case index xs exception of
        None \<Rightarrow>
          (case repr_group repr s self of
             Inl e \<Rightarrow> (s, Inl e)
           | Inr r \<Rightarrow> (s, Inl (ValueError (repr s exception @ '' not contained in '' @ r))))
      | Some idx \<Rightarrow>
      (case self_message s self of
        Inl e \<Rightarrow> (s, Inl e)
      | Inr m \<Rightarrow>
      (let (s1, t1) = new_list s (take idx xs @ drop (idx + 1) xs)
       in case sources_of s1 self of
            Inl e \<Rightarrow> (s1, Inl e)
          | Inr ys \<Rightarrow>
          (let (s2, t2) = new_list s1 (take idx ys @ drop (idx + 1) ys)
           in case ExceptionGroup repr s2 (type_of s2 self) m t1 t2 of
                (s', Inl e) \<Rightarrow> (s', Inl e)
              | (s', Inr new) \<Rightarrow> (copy_magic_attrs s' self new, Inr new))))))"

text \<open>
  The \<open>predicate\<close> argument of \<^verbatim>\<open>find\<close>/\<^verbatim>\<open>findall\<close>: a callable (pure, returning a
  truth value), a type, or a tuple of types.
\<close>

datatype predicate =
    Callable "state \<Rightarrow> pyval \<Rightarrow> bool"
  | Type string
  | Tuple "string list"

text \<open>What the generator yields: an exception, or an (exception, source) tuple.\<close>

datatype item = Bare pyval | WithSource pyval pyval

text \<open>The exception of an item, whatever its shape.\<close>

fun item_exception :: "item \<Rightarrow> pyval" where
  "item_exception (Bare exception) = exception"
| "item_exception (WithSource exception source) = exception"

text \<open>The first statement of \<^verbatim>\<open>findall\<close>: a type or tuple becomes an \<^verbatim>\<open>isinstance\<close> test.\<close>

fun resolve :: "predicate \<Rightarrow> state \<Rightarrow> pyval \<Rightarrow> bool" where
  "resolve (Callable f) = f"
| "resolve (Type t) = (\<lambda>s exc. py_isinstance s exc [t])"
| "resolve (Tuple ts) = (\<lambda>s exc. py_isinstance s exc ts)"

text \<open>The loop over \<^verbatim>\<open>zip(self.exceptions, self.sources)\<close>.\<close>

fun with_sources :: "(pyval \<Rightarrow> bool) \<Rightarrow> pyval list \<Rightarrow> pyval list \<Rightarrow> item list" where
  "with_sources p (exception # xs) (source # ys) =
     (if p exception then WithSource exception source # with_sources p xs ys
      else with_sources p xs ys)"
| "with_sources p xs ys = []"

text \<open>\<^verbatim>\<open>findall\<close>: the items the generator yields when run to exhaustion.\<close>

definition findall :: "state \<Rightarrow> addr \<Rightarrow> predicate \<Rightarrow> bool \<Rightarrow> state \<times> (error + item list)" where
  "findall s self predicate with_source =
     (let p = resolve predicate s
      in if with_source
         then (case exceptions_of s self of
                 Inl e \<Rightarrow> (s, Inl e)
               | Inr xs \<Rightarrow>
                   (case sources_of s self of
                      Inl e \<Rightarrow> (s, Inl e)
                    | Inr ys \<Rightarrow> (s, Inr (with_sources p xs ys))))
         else (case exceptions_of s self of
                 Inl e \<Rightarrow> (s, Inl e)
               | Inr xs \<Rightarrow> (s, Inr (map Bare (filter p xs)))))"

text \<open>\<^verbatim>\<open>find\<close>: the first item of \<^verbatim>\<open>findall\<close>, or \<^verbatim>\<open>None\<close> when the loop body never runs.\<close>

definition find_item :: "state \<Rightarrow> addr \<Rightarrow> predicate \<Rightarrow> bool \<Rightarrow> state \<times> (error + item option)" where
  "find_item s self predicate with_source =
     (case findall s self predicate with_source of
        (s', Inl e) \<Rightarrow> (s', Inl e)
      | (s', Inr []) \<Rightarrow> (s', Inr None)
      | (s', Inr (item # rest)) \<Rightarrow> (s', Inr (Some item)))"

text \<open>
  What leaves \<^verbatim>\<open>maybe_reraise\<close> when it does not return: an exception instance of the
  store, or an error of the host.
\<close>

datatype raised = Exc addr | Err error

text \<open>
  \<^verbatim>\<open>raise exc from cause\<close>: \<open>exc\<close> must be an exception instance and \<open>cause\<close> an
  exception instance or \<^verbatim>\<open>None\<close>; the statement assigns \<^verbatim>\<open>exc.__cause__\<close> (and with
  it \<^verbatim>\<open>__suppress_context__\<close>) and raises \<open>exc\<close>. The implicit chaining of
  \<^verbatim>\<open>__context__\<close> and the growth of \<^verbatim>\<open>__traceback__\<close> while the exception
  propagates belong to the interpreter's unwinding and are not part of the model.
\<close>

fun raise_from :: "state \<Rightarrow> pyval \<Rightarrow> pyval \<Rightarrow> state \<times> raised" where
  "raise_from s (PExc a) PNone = (set_cause s a None, Exc a)"
| "raise_from s (PExc a) (PExc c) = (set_cause s a (Some c), Exc a)"
| "raise_from s (PExc a) v =
     (s, Err (TypeError ''exception causes must derive from BaseException''))"
| "raise_from s v c = (s, Err (TypeError ''exceptions must derive from BaseException''))"

text \<open>\<^verbatim>\<open>sys.exc_info()[1]\<close>.\<close>

definition exc_info_1 :: "state \<Rightarrow> pyval" where
  "exc_info_1 s = (case handling s of None \<Rightarrow> PNone | Some a \<Rightarrow> PExc a)"

text \<open>
  \<^verbatim>\<open>maybe_reraise(from_exception=0, unwrap=True)\<close>; \<open>None\<close> in the result is the normal
  return.
\<close>

definition maybe_reraise :: "state \<Rightarrow> addr \<Rightarrow> pyval \<Rightarrow> bool \<Rightarrow> state \<times> raised option" where
  "maybe_reraise s self from_exception unwrap =
     (case exceptions_of s self of
        Inl e \<Rightarrow> (s, Some (Err e))
      | Inr xs \<Rightarrow>
          if xs = [] then (s, None)
          else
            (let exc = (if unwrap \<and> length xs = 1 then xs ! 0 else PExc self);
                 from_exception' =
                   (if from_exception = PInt 0 then exc_info_1 s else from_exception);
                 (s', r) = raise_from s exc from_exception'
             in (s', Some r)))"

section \<open>Well-formed groups and an example store\<close>

text \<open>
  What a successful constructor call establishes: in \<open>s\<close> the instance at \<open>g\<close> is \<open>ob\<close>,
  its \<^verbatim>\<open>message\<close> is \<open>m\<close>, its \<^verbatim>\<open>exceptions\<close> and \<^verbatim>\<open>sources\<close> are lists holding
  \<open>xs\<close> and \<open>ys\<close>, of equal length, and every child is an exception instance.
\<close>

definition group_at ::
  "state \<Rightarrow> addr \<Rightarrow> pyobj \<Rightarrow> pyval \<Rightarrow> pyval list \<Rightarrow> pyval list \<Rightarrow> bool" where
  "group_at s g ob m xs ys \<longleftrightarrow>
     get_inst s g = Some ob \<and> self_message s g = Inr m
     \<and> exceptions_of s g = Inr xs \<and> sources_of s g = Inr ys
     \<and> length xs = length ys \<and> list_all is_BaseException xs"

text \<open>The invariant \<^verbatim>\<open>len(self.exceptions) == len(self.sources)\<close> of the instance at \<open>g\<close>.\<close>

definition lengths_agree :: "state \<Rightarrow> addr \<Rightarrow> bool" where
  "lengths_agree s g =
     (case exceptions_of s g of
        Inl e \<Rightarrow> False
      | Inr xs \<Rightarrow> (case sources_of s g of
                     Inl e \<Rightarrow> False
                   | Inr ys \<Rightarrow> length xs = length ys))"

text \<open>\<open>s'\<close> keeps every list, every instance and the handled exception of \<open>s\<close>.\<close>

definition extends_store :: "state \<Rightarrow> state \<Rightarrow> bool" where
  "extends_store s s' \<longleftrightarrow>
     take (length (lists s)) (lists s') = lists s
     \<and> take (length (objs s)) (objs s') = objs s
     \<and> handling s' = handling s"

text \<open>
  A stand-in for the host's \<^verbatim>\<open>repr\<close>, and a store that holds three plain exceptions, a
  group built from the first two, with its chain slots set and
  \<^verbatim>\<open>__suppress_context__\<close> assigned false afterwards, a group of the third alone and an
  empty group, while the second exception is being handled.
\<close>

definition ExceptionGroup_cls :: "string list" where
  "ExceptionGroup_cls = [''ExceptionGroup'', ''BaseException'', ''object'']"

definition ex_exception :: "string \<Rightarrow> string \<Rightarrow> pyobj" where
  "ex_exception c a =
     BaseException_new [c, ''Exception'', ''BaseException'', ''object''] [Val (PStr a)]"

definition ex_repr :: "state \<Rightarrow> pyval \<Rightarrow> string" where
  "ex_repr s v = (case v of PNone \<Rightarrow> ''None'' | PInt i \<Rightarrow> ''<int>''
                  | PStr t \<Rightarrow> t
                  | PExc a \<Rightarrow> (case mro_of s v of [] \<Rightarrow> ''?'' | c # cs \<Rightarrow> c @ ''()''))"

definition ex_group :: pyobj where
  "ex_group =
     \<lparr>mro = ExceptionGroup_cls, args = [Val (PStr ''many error.''), ListRef 0, ListRef 1],
      exc_traceback = Some 7, exc_context = Some 1, exc_cause = Some 0,
      suppress_context = False, message = Some (PStr ''many error.''),
      exceptions = Some 2, sources = Some 3, others = [(''note'', PInt 1)]\<rparr>"

definition ex_single :: pyobj where
  "ex_single =
     (BaseException_new ExceptionGroup_cls [Val (PStr ''E''), ListRef 6, ListRef 7])
       \<lparr>message := Some (PStr ''E''), exceptions := Some 8, sources := Some 9\<rparr>"

definition ex_empty :: pyobj where
  "ex_empty =
     (BaseException_new ExceptionGroup_cls [Val (PStr ''E''), ListRef 10, ListRef 11])
       \<lparr>message := Some (PStr ''E''), exceptions := Some 12, sources := Some 13\<rparr>"

definition ex_store :: state where
  "ex_store =
     \<lparr>lists = [[PExc 0, PExc 1], [PStr ''A'', PStr ''B''],
               [PExc 0, PExc 1], [PStr ''A'', PStr ''B''],
               [PExc 0, PStr ''error2''], [PStr ''A''],
               [PExc 3], [PStr ''C''], [PExc 3], [PStr ''C''],
               [], [], [], []],
      objs = [ex_exception ''ValueError'' ''A'', ex_exception ''RuntimeError'' ''B'',
              ex_group, ex_exception ''TypeError'' ''C'', ex_single, ex_empty],
      handling = Some 1\<rparr>"

section \<open>The store under allocation and assignment\<close>

lemma objs_upd_inst: "objs (upd_inst s a f) = (objs s)[a := f (objs s ! a)]"
  by (simp add: upd_inst_def)

lemma slot_upd_inst_other:
  "self \<noteq> dst \<Longrightarrow> slot (upd_inst s dst f) self g d = slot s self g d"
  by (simp add: slot_def get_inst_def upd_inst_def)

lemma upd_inst_twice:
  "dst < length (objs s) \<Longrightarrow> upd_inst (upd_inst s dst f) dst g = upd_inst s dst (\<lambda>ob. g (f ob))"
  by (simp add: upd_inst_def)

lemma get_inst_SomeD: "get_inst s a = Some ob \<Longrightarrow> a < length (objs s) \<and> objs s ! a = ob"
  by (simp add: get_inst_def split: if_splits)

lemma get_list_SomeD: "get_list s a = Some xs \<Longrightarrow> a < length (lists s) \<and> lists s ! a = xs"
  by (simp add: get_list_def split: if_splits)

section \<open>The constructor\<close>

lemma first_non_exception_None:
  "first_non_exception xs = None \<longleftrightarrow> (\<forall>x\<in>set xs. is_BaseException x)"
  by (induction xs) auto

lemma first_non_exception_Some:
  "first_non_exception xs = Some v \<Longrightarrow> v \<in> set xs \<and> \<not> is_BaseException v"
  by (induction xs) (auto split: if_splits)

text \<open>The element reported by the loop is the first one that is not an exception.\<close>

lemma first_non_exception_first:
  "first_non_exception xs = Some v \<Longrightarrow>
   \<exists>pre post. xs = pre @ v # post \<and> (\<forall>x\<in>set pre. is_BaseException x) \<and> \<not> is_BaseException v"
proof (induction xs)
  case Nil
  then show ?case by simp
next
  case (Cons a xs)
  show ?case
  proof (cases "is_BaseException a")
    case True
    with Cons obtain pre post where
      "xs = pre @ v # post" "\<forall>x\<in>set pre. is_BaseException x" "\<not> is_BaseException v"
      by auto
    then have "a # xs = (a # pre) @ v # post \<and> (\<forall>x\<in>set (a # pre). is_BaseException x)
               \<and> \<not> is_BaseException v"
      using True by simp
    then show ?thesis by blast
  next
    case False
    with Cons.prems have "v = a" by simp
    then have "a # xs = [] @ v # xs \<and> (\<forall>x\<in>set []. is_BaseException x) \<and> \<not> is_BaseException v"
      using False by simp
    then show ?thesis by blast
  qed
qed

text \<open>The three ways \<^verbatim>\<open>__init__\<close> ends on list arguments, with the store it leaves.\<close>

lemma ExceptionGroup_Inr:
  assumes "get_list s excs = Some xs" and "get_list s srcs = Some ys"
    and "first_non_exception xs = None" and "length ys = length xs"
  shows "ExceptionGroup repr s cls msg excs srcs =
           (s\<lparr>lists := lists s @ [xs, ys],
              objs := objs s @ [(BaseException_new cls [Val msg, ListRef excs, ListRef srcs])
                 \<lparr>message := Some msg, exceptions := Some (length (lists s)),
                  sources := Some (Suc (length (lists s)))\<rparr>]\<rparr>,
            Inr (length (objs s)))"
  using assms
  by (simp add: ExceptionGroup_def new_inst_def new_list_def upd_inst_def py_list_def
      get_list_def BaseException_new_def Let_def nth_append split: if_splits)

lemma ExceptionGroup_TypeError:
  assumes "get_list s excs = Some xs" and "first_non_exception xs = Some v"
  shows "\<exists>s'. ExceptionGroup repr s cls msg excs srcs =
           (s', Inl (TypeError (''Expected an exception object, not '' @ repr s' v)))
         \<and> lists s' = lists s @ [xs]
         \<and> objs s' = objs s @ [(BaseException_new cls [Val msg, ListRef excs, ListRef srcs])
                                  \<lparr>exceptions := Some (length (lists s))\<rparr>]
         \<and> handling s' = handling s"
  using assms
  by (simp add: ExceptionGroup_def new_inst_def new_list_def upd_inst_def py_list_def
      get_list_def BaseException_new_def Let_def nth_append split: if_splits)

lemma ExceptionGroup_ValueError:
  assumes "get_list s excs = Some xs" and "get_list s srcs = Some ys"
    and "first_non_exception xs = None" and "length ys \<noteq> length xs"
  shows "ExceptionGroup repr s cls msg excs srcs =
           (s\<lparr>lists := lists s @ [xs, ys],
              objs := objs s @ [(BaseException_new cls [Val msg, ListRef excs, ListRef srcs])
                 \<lparr>message := Some msg, exceptions := Some (length (lists s)),
                  sources := Some (Suc (length (lists s)))\<rparr>]\<rparr>,
            Inl (ValueError (''different number of sources ('' @ str_nat (length ys)
                    @ '') and exceptions ('' @ str_nat (length xs) @ '')'')))"
  using assms
  by (simp add: ExceptionGroup_def new_inst_def new_list_def upd_inst_def py_list_def
      get_list_def BaseException_new_def Let_def nth_append split: if_splits)

section \<open>Copying the chain slots\<close>

lemma copy_magic_attrs_fresh:
  assumes "self < length (objs s)" and "dst < length (objs s)" and "self \<noteq> dst"
  shows "copy_magic_attrs s self dst =
           upd_inst s dst (\<lambda>ob. ob
                \<lparr>exc_traceback := exc_traceback (objs s ! self),
                 exc_context := exc_context (objs s ! self),
                 exc_cause := exc_cause (objs s ! self),
                 suppress_context := suppress_context (objs s ! self)\<rparr>)"
proof -
  have sl: "\<And>g d. slot s self g d = g (objs s ! self)"
    using assms(1) by (simp add: slot_def get_inst_def)
  show ?thesis
    unfolding copy_magic_attrs_def Let_def set_traceback_def set_context_def set_cause_def
      set_suppress_context_def
    using assms(2)
    by (simp only: slot_upd_inst_other[OF assms(3)] sl upd_inst_twice objs_upd_inst
        length_list_update) simp
qed

section \<open>Constructing from an existing group\<close>

text \<open>The tail shared by \<^verbatim>\<open>__copy__\<close>, \<^verbatim>\<open>add\<close> and \<^verbatim>\<open>remove\<close>: construct, then copy the chain slots.\<close>

lemma construct_then_copy:
  assumes g: "get_inst s g = Some ob" and e: "get_list s e = Some xs" and l: "get_list s l = Some ys"
    and ok: "first_non_exception xs = None" and len: "length ys = length xs"
  shows "(case ExceptionGroup repr s cls m e l of
            (s', Inl err) \<Rightarrow> (s', Inl err)
          | (s', Inr new) \<Rightarrow> (copy_magic_attrs s' g new, Inr new)) =
         (s\<lparr>lists := lists s @ [xs, ys],
            objs := objs s @
              [\<lparr>mro = cls, args = [Val m, ListRef e, ListRef l],
                exc_traceback = exc_traceback ob, exc_context = exc_context ob,
                exc_cause = exc_cause ob, suppress_context = suppress_context ob,
                message = Some m, exceptions = Some (length (lists s)),
                sources = Some (Suc (length (lists s))), others = []\<rparr>]\<rparr>,
          Inr (length (objs s)))"
proof -
  from g have gl: "g < length (objs s)" and gob: "objs s ! g = ob"
    by (simp_all add: get_inst_SomeD)
  define s' where "s' = s\<lparr>lists := lists s @ [xs, ys],
              objs := objs s @ [(BaseException_new cls [Val m, ListRef e, ListRef l])
                 \<lparr>message := Some m, exceptions := Some (length (lists s)),
                  sources := Some (Suc (length (lists s)))\<rparr>]\<rparr>"
  have c: "ExceptionGroup repr s cls m e l = (s', Inr (length (objs s)))"
    unfolding s'_def by (rule ExceptionGroup_Inr[OF e l ok len])
  have 1: "g < length (objs s')" using gl by (simp add: s'_def)
  have 2: "length (objs s) < length (objs s')" by (simp add: s'_def)
  have 3: "g \<noteq> length (objs s)" using gl by simp
  have 4: "objs s' ! g = ob" using gl gob by (simp add: s'_def nth_append)
  have "copy_magic_attrs s' g (length (objs s)) =
          upd_inst s' (length (objs s)) (\<lambda>ob'. ob'
                \<lparr>exc_traceback := exc_traceback ob,
                 exc_context := exc_context ob,
                 exc_cause := exc_cause ob,
                 suppress_context := suppress_context ob\<rparr>)"
    using copy_magic_attrs_fresh[OF 1 2 3] by (simp only: 4)
  then show ?thesis
    by (simp add: c) (simp add: s'_def upd_inst_def BaseException_new_def)
qed

lemma get_inst_lists_upd: "get_inst (s\<lparr>lists := ls\<rparr>) a = get_inst s a"
  by (simp add: get_inst_def)

lemma get_list_append:
  "get_list s a = Some xs \<Longrightarrow> get_list (s\<lparr>lists := lists s @ zs\<rparr>) a = Some xs"
  by (simp add: get_list_def nth_append split: if_splits)

lemma exceptions_of_InrD:
  "exceptions_of s g = Inr xs \<Longrightarrow>
   \<exists>ob l. get_inst s g = Some ob \<and> exceptions ob = Some l \<and> get_list s l = Some xs"
  by (auto simp: exceptions_of_def self_exceptions_def py_list_def
      split: option.splits sum.splits)

lemma sources_of_InrD:
  "sources_of s g = Inr ys \<Longrightarrow>
   \<exists>ob l. get_inst s g = Some ob \<and> sources ob = Some l \<and> get_list s l = Some ys"
  by (auto simp: sources_of_def self_sources_def py_list_def
      split: option.splits sum.splits)

lemma self_message_InrD:
  "self_message s g = Inr m \<Longrightarrow> \<exists>ob. get_inst s g = Some ob \<and> message ob = Some m"
  by (auto simp: self_message_def split: option.splits)

lemma sources_of_append:
  "sources_of s g = Inr ys \<Longrightarrow> sources_of (s\<lparr>lists := lists s @ zs\<rparr>) g = Inr ys"
  by (auto simp: sources_of_def self_sources_def py_list_def get_inst_lists_upd get_list_append
      split: option.splits sum.splits)

lemma add_Inr:
  assumes g: "get_inst s g = Some ob" and m: "self_message s g = Inr m"
    and xs: "exceptions_of s g = Inr xs" and ys: "sources_of s g = Inr ys"
    and ok: "first_non_exception (xs @ [x]) = None" and len: "length xs = length ys"
  shows "add repr s g x src =
         (s\<lparr>lists := lists s @ [xs @ [x], ys @ [src], xs @ [x], ys @ [src]],
            objs := objs s @
              [\<lparr>mro = mro ob,
                args = [Val m, ListRef (length (lists s)), ListRef (Suc (length (lists s)))],
                exc_traceback = exc_traceback ob, exc_context = exc_context ob,
                exc_cause = exc_cause ob, suppress_context = suppress_context ob,
                message = Some m, exceptions = Some (Suc (Suc (length (lists s)))),
                sources = Some (Suc (Suc (Suc (length (lists s))))), others = []\<rparr>]\<rparr>,
          Inr (length (objs s)))"
proof -
  define s2 where "s2 = s\<lparr>lists := lists s @ [xs @ [x], ys @ [src]]\<rparr>"
  have g2: "get_inst s2 g = Some ob" using g by (simp add: s2_def get_inst_lists_upd)
  have e2: "get_list s2 (length (lists s)) = Some (xs @ [x])"
    by (simp add: s2_def get_list_def nth_append)
  have l2: "get_list s2 (Suc (length (lists s))) = Some (ys @ [src])"
    by (simp add: s2_def get_list_def nth_append)
  have len2: "length (ys @ [src]) = length (xs @ [x])" using len by simp
  have ty: "type_of s2 g = mro ob" using g by (simp add: s2_def type_of_def get_inst_lists_upd)
  have unf: "add repr s g x src =
     (case ExceptionGroup repr s2 (mro ob) m (length (lists s)) (Suc (length (lists s))) of
            (s', Inl err) \<Rightarrow> (s', Inl err)
          | (s', Inr new) \<Rightarrow> (copy_magic_attrs s' g new, Inr new))"
    using ty by (simp add: add_def m xs new_list_def sources_of_append[OF ys] s2_def)
  show ?thesis
    unfolding unf construct_then_copy[OF g2 e2 l2 ok len2]
    by (simp add: s2_def)
qed

section \<open>Removal\<close>

lemma index_None: "index xs x = None \<longleftrightarrow> x \<notin> set xs"
  by (induction xs) auto

lemma index_Some:
  "index xs x = Some i \<Longrightarrow> i < length xs \<and> xs ! i = x \<and> (\<forall>j<i. xs ! j \<noteq> x)"
proof (induction xs arbitrary: i)
  case Nil
  then show ?case by simp
next
  case (Cons y ys)
  show ?case
  proof (cases "y = x")
    case True
    with Cons.prems show ?thesis by simp
  next
    case False
    with Cons.prems obtain k where k: "index ys x = Some k" "i = Suc k" by auto
    from Cons.IH[OF k(1)] have "k < length ys" "ys ! k = x" "\<forall>j<k. ys ! j \<noteq> x" by auto
    then show ?thesis using False k(2) by (auto simp: nth_Cons split: nat.splits)
  qed
qed

lemma index_append_fresh: "x \<notin> set xs \<Longrightarrow> index (xs @ [x]) x = Some (length xs)"
  by (induction xs) auto

lemma excise_exceptions:
  "first_non_exception xs = None \<Longrightarrow> first_non_exception (take i xs @ drop (Suc i) xs) = None"
  by (auto simp: first_non_exception_None dest: in_set_takeD in_set_dropD)

lemma remove_Inr:
  assumes g: "get_inst s g = Some ob" and m: "self_message s g = Inr m"
    and xs: "exceptions_of s g = Inr xs" and ys: "sources_of s g = Inr ys"
    and idx: "index xs x = Some i"
    and ok: "first_non_exception xs = None" and len: "length xs = length ys"
  shows "remove repr s g x =
         (s\<lparr>lists := lists s @ [take i xs @ drop (Suc i) xs, take i ys @ drop (Suc i) ys,
                                take i xs @ drop (Suc i) xs, take i ys @ drop (Suc i) ys],
            objs := objs s @
              [\<lparr>mro = mro ob,
                args = [Val m, ListRef (length (lists s)), ListRef (Suc (length (lists s)))],
                exc_traceback = exc_traceback ob, exc_context = exc_context ob,
                exc_cause = exc_cause ob, suppress_context = suppress_context ob,
                message = Some m, exceptions = Some (Suc (Suc (length (lists s)))),
                sources = Some (Suc (Suc (Suc (length (lists s))))), others = []\<rparr>]\<rparr>,
          Inr (length (objs s)))"
proof -
  define xs' where "xs' = take i xs @ drop (Suc i) xs"
  define ys' where "ys' = take i ys @ drop (Suc i) ys"
  define s2 where "s2 = s\<lparr>lists := lists s @ [xs', ys']\<rparr>"
  have g2: "get_inst s2 g = Some ob" using g by (simp add: s2_def get_inst_lists_upd)
  have e2: "get_list s2 (length (lists s)) = Some xs'"
    by (simp add: s2_def get_list_def nth_append)
  have l2: "get_list s2 (Suc (length (lists s))) = Some ys'"
    by (simp add: s2_def get_list_def nth_append)
  have ok2: "first_non_exception xs' = None"
    unfolding xs'_def by (rule excise_exceptions[OF ok])
  have len2: "length ys' = length xs'" using len by (simp add: xs'_def ys'_def)
  have ty: "type_of s2 g = mro ob" using g by (simp add: s2_def type_of_def get_inst_lists_upd)
  have unf: "remove repr s g x =
     (case ExceptionGroup repr s2 (mro ob) m (length (lists s)) (Suc (length (lists s))) of
            (s', Inl err) \<Rightarrow> (s', Inl err)
          | (s', Inr new) \<Rightarrow> (copy_magic_attrs s' g new, Inr new))"
    using ty
    by (simp add: remove_def m xs idx new_list_def sources_of_append[OF ys] s2_def xs'_def ys'_def)
  show ?thesis
    unfolding unf construct_then_copy[OF g2 e2 l2 ok2 len2]
    by (simp add: s2_def xs'_def ys'_def)
qed

lemma remove_ValueError:
  assumes xs: "exceptions_of s g = Inr xs" and idx: "index xs x = None"
  shows "remove repr s g x =
         (s, Inl (ValueError (repr s x @ '' not contained in ''
                    @ ''<ExceptionGroup: '' @ join (map (repr s) xs) @ ''>'')))"
  by (simp add: remove_def xs idx repr_group_def str_group_def)

lemma copy_Inr:
  assumes g: "get_inst s g = Some ob" and m: "message ob = Some m"
    and el: "exceptions ob = Some el" and xs: "get_list s el = Some xs"
    and sl: "sources ob = Some sl" and ys: "get_list s sl = Some ys"
    and ok: "first_non_exception xs = None" and len: "length xs = length ys"
  shows "copy repr s g =
         (s\<lparr>lists := lists s @ [xs, ys],
            objs := objs s @
              [\<lparr>mro = mro ob, args = [Val m, ListRef el, ListRef sl],
                exc_traceback = exc_traceback ob, exc_context = exc_context ob,
                exc_cause = exc_cause ob, suppress_context = suppress_context ob,
                message = Some m, exceptions = Some (length (lists s)),
                sources = Some (Suc (length (lists s))), others = []\<rparr>]\<rparr>,
          Inr (length (objs s)))"
proof -
  have len2: "length ys = length xs" using len by simp
  have unf: "copy repr s g =
     (case ExceptionGroup repr s (mro ob) m el sl of
            (s', Inl err) \<Rightarrow> (s', Inl err)
          | (s', Inr new) \<Rightarrow> (copy_magic_attrs s' g new, Inr new))"
    by (simp add: copy_def self_message_def self_exceptions_def self_sources_def type_of_def
        g m el sl)
  show ?thesis
    unfolding unf by (rule construct_then_copy[OF g xs ys ok len2])
qed

section \<open>Construction\<close>

lemma get_inst_set_list: "get_inst (set_list s a zs) g = get_inst s g"
  by (simp add: get_inst_def set_list_def)

lemma get_list_set_list_other:
  "a \<noteq> b \<Longrightarrow> get_list (set_list s a zs) b = get_list s b"
  by (simp add: get_list_def set_list_def)

lemma exceptions_of_set_list_other:
  assumes "exceptions_of s g = Inr xs" and "self_exceptions s g \<noteq> Inr a"
  shows "exceptions_of (set_list s a zs) g = Inr xs"
proof -
  from exceptions_of_InrD[OF assms(1)] obtain ob l where
    ob: "get_inst s g = Some ob" "exceptions ob = Some l" "get_list s l = Some xs" by blast
  with assms(2) have "l \<noteq> a" by (auto simp: self_exceptions_def)
  then show ?thesis using ob
    by (simp add: exceptions_of_def self_exceptions_def get_inst_set_list py_list_def
        get_list_set_list_other)
qed

lemma sources_of_set_list_other:
  assumes "sources_of s g = Inr ys" and "self_sources s g \<noteq> Inr a"
  shows "sources_of (set_list s a zs) g = Inr ys"
proof -
  from sources_of_InrD[OF assms(1)] obtain ob l where
    ob: "get_inst s g = Some ob" "sources ob = Some l" "get_list s l = Some ys" by blast
  with assms(2) have "l \<noteq> a" by (auto simp: self_sources_def)
  then show ?thesis using ob
    by (simp add: sources_of_def self_sources_def get_inst_set_list py_list_def
        get_list_set_list_other)
qed

lemma self_exceptions_set_list: "self_exceptions (set_list s a zs) g = self_exceptions s g"
  by (simp add: self_exceptions_def get_inst_set_list)

lemma self_sources_set_list: "self_sources (set_list s a zs) g = self_sources s g"
  by (simp add: self_sources_def get_inst_set_list)

text \<open>
  C5. Given children and sources that are lists of equal length, every child an exception
  instance, the constructor returns an instance whose \<^verbatim>\<open>exceptions\<close> and
  \<^verbatim>\<open>sources\<close> hold the same elements in the same order and whose \<^verbatim>\<open>message\<close>
  is the one given. The two lists of the instance are copies: whatever the caller assigns
  to its own two list objects afterwards, the instance's children and sources stay as
  they were.
\<close>

theorem construct_defensive_copies:
  assumes "get_list s excs = Some xs" and "get_list s srcs = Some ys"
    and "length xs = length ys" and "list_all is_BaseException xs"
  shows "\<exists>s' g. ExceptionGroup repr s cls msg excs srcs = (s', Inr g)
           \<and> exceptions_of s' g = Inr xs \<and> sources_of s' g = Inr ys
           \<and> self_message s' g = Inr msg
           \<and> (\<forall>xs' ys'. exceptions_of (set_list (set_list s' excs xs') srcs ys') g = Inr xs
                       \<and> sources_of (set_list (set_list s' excs xs') srcs ys') g = Inr ys)"
proof -
  from assms(4) have ok: "first_non_exception xs = None"
    by (simp add: first_non_exception_None list_all_iff)
  from assms(3) have len: "length ys = length xs" by simp
  from assms(1) have e: "excs < length (lists s)" by (simp add: get_list_SomeD)
  from assms(2) have l: "srcs < length (lists s)" by (simp add: get_list_SomeD)
  define s' where "s' = s\<lparr>lists := lists s @ [xs, ys],
              objs := objs s @ [(BaseException_new cls [Val msg, ListRef excs, ListRef srcs])
                 \<lparr>message := Some msg, exceptions := Some (length (lists s)),
                  sources := Some (Suc (length (lists s)))\<rparr>]\<rparr>"
  define g where "g = length (objs s)"
  have c: "ExceptionGroup repr s cls msg excs srcs = (s', Inr g)"
    unfolding s'_def g_def by (rule ExceptionGroup_Inr[OF assms(1) assms(2) ok len])
  have se: "self_exceptions s' g = Inr (length (lists s))"
    by (simp add: self_exceptions_def get_inst_def s'_def g_def)
  have ss: "self_sources s' g = Inr (Suc (length (lists s)))"
    by (simp add: self_sources_def get_inst_def s'_def g_def)
  have x: "exceptions_of s' g = Inr xs"
    by (simp add: exceptions_of_def se py_list_def get_list_def) (simp add: s'_def nth_append)
  have y: "sources_of s' g = Inr ys"
    by (simp add: sources_of_def ss py_list_def get_list_def) (simp add: s'_def nth_append)
  have m: "self_message s' g = Inr msg"
    by (simp add: self_message_def get_inst_def s'_def g_def)
  have mut: "exceptions_of (set_list (set_list s' excs xs') srcs ys') g = Inr xs
           \<and> sources_of (set_list (set_list s' excs xs') srcs ys') g = Inr ys" for xs' ys'
  proof
    have ne1: "self_exceptions s' g \<noteq> Inr excs" using e by (simp add: se)
    have ne2: "self_exceptions (set_list s' excs xs') g \<noteq> Inr srcs"
      using l by (simp add: self_exceptions_set_list se)
    show "exceptions_of (set_list (set_list s' excs xs') srcs ys') g = Inr xs"
      by (rule exceptions_of_set_list_other[OF exceptions_of_set_list_other[OF x ne1] ne2])
    have ne3: "self_sources s' g \<noteq> Inr excs" using e by (simp add: ss)
    have ne4: "self_sources (set_list s' excs xs') g \<noteq> Inr srcs"
      using l by (simp add: self_sources_set_list ss)
    show "sources_of (set_list (set_list s' excs xs') srcs ys') g = Inr ys"
      by (rule sources_of_set_list_other[OF sources_of_set_list_other[OF y ne3] ne4])
  qed
  from c x y m mut show ?thesis by blast
qed

theorem construct_defensive_copies_witness:
  "\<exists>s' g. ExceptionGroup ex_repr ex_store ExceptionGroup_cls (PStr ''E'') 0 1 = (s', Inr g)
           \<and> exceptions_of s' g = Inr [PExc 0, PExc 1]
           \<and> sources_of s' g = Inr [PStr ''A'', PStr ''B'']
           \<and> self_message s' g = Inr (PStr ''E'')
           \<and> (\<forall>xs' ys'. exceptions_of (set_list (set_list s' 0 xs') 1 ys') g = Inr [PExc 0, PExc 1]
                       \<and> sources_of (set_list (set_list s' 0 xs') 1 ys') g
                            = Inr [PStr ''A'', PStr ''B''])"
  by (rule construct_defensive_copies) (simp_all add: ex_store_def get_list_def)

section \<open>Failures of the constructor\<close>

lemma str_nat_1: "str_nat (Suc 0) = ''1''"
  by (simp add: str_nat.simps)

lemma str_nat_2: "str_nat (Suc (Suc 0)) = ''2''"
  by (simp add: str_nat.simps)

text \<open>
  C9. When some child is not an exception instance and the two lists also differ in
  length, the constructor raises the \<^verbatim>\<open>TypeError\<close> of the membership check, naming
  a child that is not an exception, and not the \<^verbatim>\<open>ValueError\<close> of the length check:
  the loop over the children runs before the sources are looked at.
\<close>

theorem invalid_member_before_length_mismatch:
  assumes "get_list s excs = Some xs" and "get_list s srcs = Some ys"
    and "\<not> list_all is_BaseException xs" and "length xs \<noteq> length ys"
  shows "\<exists>s' v. ExceptionGroup repr s cls msg excs srcs =
                   (s', Inl (TypeError (''Expected an exception object, not '' @ repr s' v)))
               \<and> v \<in> set xs \<and> \<not> is_BaseException v
               \<and> (\<forall>t. snd (ExceptionGroup repr s cls msg excs srcs) \<noteq> Inl (ValueError t))"
proof -
  from assms(3) obtain v where v: "first_non_exception xs = Some v"
    by (cases "first_non_exception xs") (auto simp: first_non_exception_None list_all_iff)
  from ExceptionGroup_TypeError[OF assms(1) v] obtain s' where
    "ExceptionGroup repr s cls msg excs srcs =
       (s', Inl (TypeError (''Expected an exception object, not '' @ repr s' v)))"
    by blast
  with first_non_exception_Some[OF v] show ?thesis by auto
qed

theorem invalid_member_before_length_mismatch_witness:
  "\<exists>s' v. ExceptionGroup ex_repr ex_store ExceptionGroup_cls (PStr ''E'') 4 5 =
                   (s', Inl (TypeError (''Expected an exception object, not '' @ ex_repr s' v)))
               \<and> v \<in> set [PExc 0, PStr ''error2''] \<and> \<not> is_BaseException v
               \<and> (\<forall>t. snd (ExceptionGroup ex_repr ex_store ExceptionGroup_cls (PStr ''E'') 4 5)
                         \<noteq> Inl (ValueError t))"
  by (rule invalid_member_before_length_mismatch[where ys = "[PStr ''A'']"])
    (simp_all add: ex_store_def get_list_def)

text \<open>
  C6, with the length check as the code orders it. On list arguments the constructor
  raises \<^verbatim>\<open>TypeError\<close>
  whenever some child is not an exception instance, and the message carries the
  \<^verbatim>\<open>repr\<close> of the first such child; it raises \<^verbatim>\<open>ValueError\<close>, with the number of
  sources and the number of exceptions in the message, whenever the lengths differ and
  every child is an exception instance. In both cases the caller receives the error and no
  instance, and every list and instance that existed before the call is unchanged.
\<close>

theorem construct_failures:
  assumes "get_list s excs = Some xs" and "get_list s srcs = Some ys"
  shows "(\<not> list_all is_BaseException xs \<longrightarrow>
            (\<exists>s' pre v post.
                ExceptionGroup repr s cls msg excs srcs =
                  (s', Inl (TypeError (''Expected an exception object, not '' @ repr s' v)))
              \<and> xs = pre @ v # post \<and> list_all is_BaseException pre \<and> \<not> is_BaseException v
              \<and> extends_store s s'))
       \<and> (list_all is_BaseException xs \<and> length xs \<noteq> length ys \<longrightarrow>
            (\<exists>s'. ExceptionGroup repr s cls msg excs srcs =
                  (s', Inl (ValueError (''different number of sources ('' @ str_nat (length ys)
                              @ '') and exceptions ('' @ str_nat (length xs) @ '')'')))
              \<and> extends_store s s'))"
proof (intro conjI impI)
  assume "\<not> list_all is_BaseException xs"
  then obtain v where v: "first_non_exception xs = Some v"
    by (cases "first_non_exception xs") (auto simp: first_non_exception_None list_all_iff)
  from first_non_exception_first[OF v] obtain pre post where
    split: "xs = pre @ v # post" "\<forall>x\<in>set pre. is_BaseException x" "\<not> is_BaseException v"
    by blast
  from ExceptionGroup_TypeError[OF assms(1) v] obtain s' where s':
    "ExceptionGroup repr s cls msg excs srcs =
       (s', Inl (TypeError (''Expected an exception object, not '' @ repr s' v)))"
    "lists s' = lists s @ [xs]"
    "objs s' = objs s @ [(BaseException_new cls [Val msg, ListRef excs, ListRef srcs])
                                  \<lparr>exceptions := Some (length (lists s))\<rparr>]"
    "handling s' = handling s"
    by blast
  have "extends_store s s'" by (simp add: extends_store_def s')
  with s'(1) split show "\<exists>s' pre v post.
                ExceptionGroup repr s cls msg excs srcs =
                  (s', Inl (TypeError (''Expected an exception object, not '' @ repr s' v)))
              \<and> xs = pre @ v # post \<and> list_all is_BaseException pre \<and> \<not> is_BaseException v
              \<and> extends_store s s'"
    by (auto simp: list_all_iff)
next
  assume a: "list_all is_BaseException xs \<and> length xs \<noteq> length ys"
  then have ok: "first_non_exception xs = None"
    by (simp add: first_non_exception_None list_all_iff)
  from a have len: "length ys \<noteq> length xs" by auto
  show "\<exists>s'. ExceptionGroup repr s cls msg excs srcs =
                  (s', Inl (ValueError (''different number of sources ('' @ str_nat (length ys)
                              @ '') and exceptions ('' @ str_nat (length xs) @ '')'')))
              \<and> extends_store s s'"
    unfolding ExceptionGroup_ValueError[OF assms(1) assms(2) ok len]
    by (simp add: extends_store_def)
qed

theorem construct_failures_witness:
  "snd (ExceptionGroup ex_repr ex_store ExceptionGroup_cls (PStr ''E'') 1 0)
     = Inl (TypeError ''Expected an exception object, not A'')
   \<and> snd (ExceptionGroup ex_repr ex_store ExceptionGroup_cls (PStr ''E'') 0 5)
     = Inl (ValueError ''different number of sources (1) and exceptions (2)'')"
proof
  have 1: "get_list ex_store 1 = Some [PStr ''A'', PStr ''B'']"
    and 0: "get_list ex_store 0 = Some [PExc 0, PExc 1]"
    and 5: "get_list ex_store 5 = Some [PStr ''A'']"
    by (simp_all add: ex_store_def get_list_def)
  from construct_failures[OF 1 0, of ex_repr ExceptionGroup_cls "PStr ''E''"]
  obtain s' pre v post where
    r: "ExceptionGroup ex_repr ex_store ExceptionGroup_cls (PStr ''E'') 1 0 =
          (s', Inl (TypeError (''Expected an exception object, not '' @ ex_repr s' v)))"
    and sp: "[PStr ''A'', PStr ''B''] = pre @ v # post" "list_all is_BaseException pre"
    by auto
  from sp have "v = PStr ''A''" by (cases pre) auto
  with r show "snd (ExceptionGroup ex_repr ex_store ExceptionGroup_cls (PStr ''E'') 1 0)
     = Inl (TypeError ''Expected an exception object, not A'')"
    by (simp add: ex_repr_def)
  from construct_failures[OF 0 5, of ex_repr ExceptionGroup_cls "PStr ''E''"]
  show "snd (ExceptionGroup ex_repr ex_store ExceptionGroup_cls (PStr ''E'') 0 5)
     = Inl (ValueError ''different number of sources (1) and exceptions (2)'')"
    by (auto simp: str_nat_1 str_nat_2)
qed

text \<open>
  C6 as stated fails where it overlaps with C9: the children \<^verbatim>\<open>[ValueError('A'), 'error2']\<close>
  and the sources \<^verbatim>\<open>['A']\<close> differ in length, and the constructor raises the
  \<^verbatim>\<open>TypeError\<close> of the membership check, not a \<^verbatim>\<open>ValueError\<close>.
\<close>

theorem length_mismatch_counterexample:
  "get_list ex_store 4 = Some [PExc 0, PStr ''error2'']
   \<and> get_list ex_store 5 = Some [PStr ''A'']
   \<and> length [PExc 0, PStr ''error2''] \<noteq> length [PStr ''A'']
   \<and> snd (ExceptionGroup ex_repr ex_store ExceptionGroup_cls (PStr ''E'') 4 5)
        = Inl (TypeError ''Expected an exception object, not error2'')"
  by (simp add: ExceptionGroup_def ex_store_def get_list_def py_list_def new_inst_def
      new_list_def upd_inst_def ex_repr_def Let_def)

section \<open>Groups in an extended store\<close>

lemma extends_store_append:
  "extends_store s (s\<lparr>lists := lists s @ ls, objs := objs s @ os\<rparr>)"
  by (simp add: extends_store_def)

lemma extends_get_inst:
  assumes "extends_store s s'" and "get_inst s a = Some ob"
  shows "get_inst s' a = Some ob"
proof -
  from assms(2) have a: "a < length (objs s)" "objs s ! a = ob" by (simp_all add: get_inst_SomeD)
  from assms(1) have t: "take (length (objs s)) (objs s') = objs s" by (simp add: extends_store_def)
  then have "length (objs s) \<le> length (objs s')"
    by (metis length_take min.cobounded1 min.commute)
  moreover from t a have "objs s' ! a = ob" by (metis nth_take)
  ultimately show ?thesis using a by (simp add: get_inst_def)
qed

lemma extends_get_list:
  assumes "extends_store s s'" and "get_list s a = Some xs"
  shows "get_list s' a = Some xs"
proof -
  from assms(2) have a: "a < length (lists s)" "lists s ! a = xs" by (simp_all add: get_list_SomeD)
  from assms(1) have t: "take (length (lists s)) (lists s') = lists s" by (simp add: extends_store_def)
  then have "length (lists s) \<le> length (lists s')"
    by (metis length_take min.cobounded1 min.commute)
  moreover from t a have "lists s' ! a = xs" by (metis nth_take)
  ultimately show ?thesis using a by (simp add: get_list_def)
qed

text \<open>A group is untouched by anything that only allocates.\<close>

lemma group_at_extends:
  assumes "group_at s g ob m xs ys" and "extends_store s s'"
  shows "group_at s' g ob m xs ys"
proof -
  from assms(1) have g: "get_inst s g = Some ob" and m: "self_message s g = Inr m"
    and x: "exceptions_of s g = Inr xs" and y: "sources_of s g = Inr ys"
    and rest: "length xs = length ys" "list_all is_BaseException xs"
    by (simp_all add: group_at_def)
  have g': "get_inst s' g = Some ob" by (rule extends_get_inst[OF assms(2) g])
  from exceptions_of_InrD[OF x] g obtain l where l: "exceptions ob = Some l" "get_list s l = Some xs"
    by auto
  from sources_of_InrD[OF y] g obtain k where k: "sources ob = Some k" "get_list s k = Some ys"
    by auto
  from self_message_InrD[OF m] g have mm: "message ob = Some m" by auto
  have "exceptions_of s' g = Inr xs"
    by (simp add: exceptions_of_def self_exceptions_def g' l(1) py_list_def
        extends_get_list[OF assms(2) l(2)])
  moreover have "sources_of s' g = Inr ys"
    by (simp add: sources_of_def self_sources_def g' k(1) py_list_def
        extends_get_list[OF assms(2) k(2)])
  moreover have "self_message s' g = Inr m"
    by (simp add: self_message_def g' mm)
  ultimately show ?thesis using g' rest by (simp add: group_at_def)
qed

text \<open>The group that \<open>construct_then_copy\<close> leaves at the new address.\<close>

lemma group_at_built:
  assumes "ob' = \<lparr>mro = c, args = as, exc_traceback = t, exc_context = cx, exc_cause = ca,
                  suppress_context = sc, message = Some m,
                  exceptions = Some (length (lists s) + n),
                  sources = Some (Suc (length (lists s) + n)), others = []\<rparr>"
    and "length pre = n" and "length xs = length ys" and "list_all is_BaseException xs"
  shows "group_at (s\<lparr>lists := lists s @ pre @ [xs, ys], objs := objs s @ [ob']\<rparr>)
           (length (objs s)) ob' m xs ys"
  using assms
  by (simp add: group_at_def get_inst_def self_message_def exceptions_of_def sources_of_def
      self_exceptions_def self_sources_def py_list_def get_list_def nth_append)

section \<open>What add, remove and copy return on a well-formed group\<close>

lemma group_atD:
  assumes "group_at s g ob m xs ys"
  shows "get_inst s g = Some ob" and "self_message s g = Inr m"
    and "exceptions_of s g = Inr xs" and "sources_of s g = Inr ys"
    and "length xs = length ys" and "first_non_exception xs = None"
  using assms by (simp_all add: group_at_def first_non_exception_None list_all_iff)

lemma add_post:
  assumes G: "group_at s g ob m xs ys" and x: "is_BaseException x"
  shows "\<exists>s'. add repr s g x src = (s', Inr (length (objs s)))
           \<and> extends_store s s'
           \<and> get_list s' (length (lists s)) = Some (xs @ [x])
           \<and> get_list s' (Suc (length (lists s))) = Some (ys @ [src])
           \<and> group_at s' (length (objs s))
                \<lparr>mro = mro ob,
                 args = [Val m, ListRef (length (lists s)), ListRef (Suc (length (lists s)))],
                 exc_traceback = exc_traceback ob, exc_context = exc_context ob,
                 exc_cause = exc_cause ob, suppress_context = suppress_context ob,
                 message = Some m, exceptions = Some (length (lists s) + 2),
                 sources = Some (Suc (length (lists s) + 2)), others = []\<rparr>
                m (xs @ [x]) (ys @ [src])"
proof -
  note g = group_atD[OF G]
  have ok: "first_non_exception (xs @ [x]) = None"
    using g(6) x by (simp add: first_non_exception_None)
  have all: "list_all is_BaseException (xs @ [x])"
    using ok by (simp add: first_non_exception_None list_all_iff)
  have len: "length (xs @ [x]) = length (ys @ [src])" using g(5) by simp
  define ob' where "ob' = \<lparr>mro = mro ob,
                 args = [Val m, ListRef (length (lists s)), ListRef (Suc (length (lists s)))],
                 exc_traceback = exc_traceback ob, exc_context = exc_context ob,
                 exc_cause = exc_cause ob, suppress_context = suppress_context ob,
                 message = Some m, exceptions = Some (length (lists s) + 2),
                 sources = Some (Suc (length (lists s) + 2)), others = []\<rparr>"
  define s' where "s' = s\<lparr>lists := lists s @ [xs @ [x], ys @ [src]] @ [xs @ [x], ys @ [src]],
                          objs := objs s @ [ob']\<rparr>"
  have r: "add repr s g x src = (s', Inr (length (objs s)))"
    unfolding add_Inr[OF g(1) g(2) g(3) g(4) ok g(5)] by (simp add: s'_def ob'_def)
  have e: "extends_store s s'" unfolding s'_def by (rule extends_store_append)
  have a1: "get_list s' (length (lists s)) = Some (xs @ [x])"
    by (simp add: s'_def get_list_def nth_append)
  have a2: "get_list s' (Suc (length (lists s))) = Some (ys @ [src])"
    by (simp add: s'_def get_list_def nth_append)
  have "group_at s' (length (objs s)) ob' m (xs @ [x]) (ys @ [src])"
    unfolding s'_def by (rule group_at_built[OF ob'_def _ len all]) simp
  with r e a1 a2 show ?thesis unfolding ob'_def by blast
qed

lemma remove_post:
  assumes G: "group_at s g ob m xs ys" and idx: "index xs x = Some i"
  shows "\<exists>s'. remove repr s g x = (s', Inr (length (objs s)))
           \<and> extends_store s s'
           \<and> get_list s' (length (lists s)) = Some (take i xs @ drop (Suc i) xs)
           \<and> get_list s' (Suc (length (lists s))) = Some (take i ys @ drop (Suc i) ys)
           \<and> group_at s' (length (objs s))
                \<lparr>mro = mro ob,
                 args = [Val m, ListRef (length (lists s)), ListRef (Suc (length (lists s)))],
                 exc_traceback = exc_traceback ob, exc_context = exc_context ob,
                 exc_cause = exc_cause ob, suppress_context = suppress_context ob,
                 message = Some m, exceptions = Some (length (lists s) + 2),
                 sources = Some (Suc (length (lists s) + 2)), others = []\<rparr>
                m (take i xs @ drop (Suc i) xs) (take i ys @ drop (Suc i) ys)"
proof -
  note g = group_atD[OF G]
  define xs' where "xs' = take i xs @ drop (Suc i) xs"
  define ys' where "ys' = take i ys @ drop (Suc i) ys"
  have ok: "first_non_exception xs' = None"
    unfolding xs'_def by (rule excise_exceptions[OF g(6)])
  have all: "list_all is_BaseException xs'"
    using ok by (simp add: first_non_exception_None list_all_iff)
  have len: "length xs' = length ys'" using g(5) by (simp add: xs'_def ys'_def)
  define ob' where "ob' = \<lparr>mro = mro ob,
                 args = [Val m, ListRef (length (lists s)), ListRef (Suc (length (lists s)))],
                 exc_traceback = exc_traceback ob, exc_context = exc_context ob,
                 exc_cause = exc_cause ob, suppress_context = suppress_context ob,
                 message = Some m, exceptions = Some (length (lists s) + 2),
                 sources = Some (Suc (length (lists s) + 2)), others = []\<rparr>"
  define s' where "s' = s\<lparr>lists := lists s @ [xs', ys'] @ [xs', ys'], objs := objs s @ [ob']\<rparr>"
  have r: "remove repr s g x = (s', Inr (length (objs s)))"
    unfolding remove_Inr[OF g(1) g(2) g(3) g(4) idx g(6) g(5)]
    by (simp add: s'_def ob'_def xs'_def ys'_def)
  have e: "extends_store s s'" unfolding s'_def by (rule extends_store_append)
  have a1: "get_list s' (length (lists s)) = Some xs'"
    by (simp add: s'_def get_list_def nth_append)
  have a2: "get_list s' (Suc (length (lists s))) = Some ys'"
    by (simp add: s'_def get_list_def nth_append)
  have "group_at s' (length (objs s)) ob' m xs' ys'"
    unfolding s'_def by (rule group_at_built[OF ob'_def _ len all]) simp
  with r e a1 a2 show ?thesis unfolding ob'_def xs'_def ys'_def by blast
qed

lemma copy_post:
  assumes G: "group_at s g ob m xs ys"
  shows "\<exists>s' el sl. copy repr s g = (s', Inr (length (objs s)))
           \<and> extends_store s s'
           \<and> exceptions ob = Some el \<and> sources ob = Some sl
           \<and> group_at s' (length (objs s))
                \<lparr>mro = mro ob, args = [Val m, ListRef el, ListRef sl],
                 exc_traceback = exc_traceback ob, exc_context = exc_context ob,
                 exc_cause = exc_cause ob, suppress_context = suppress_context ob,
                 message = Some m, exceptions = Some (length (lists s) + 0),
                 sources = Some (Suc (length (lists s) + 0)), others = []\<rparr>
                m xs ys"
proof -
  note g = group_atD[OF G]
  from exceptions_of_InrD[OF g(3)] g(1) obtain el where
    el: "exceptions ob = Some el" "get_list s el = Some xs" by auto
  from sources_of_InrD[OF g(4)] g(1) obtain sl where
    sl: "sources ob = Some sl" "get_list s sl = Some ys" by auto
  from self_message_InrD[OF g(2)] g(1) have mm: "message ob = Some m" by auto
  have all: "list_all is_BaseException xs"
    using g(6) by (simp add: first_non_exception_None list_all_iff)
  define ob' where "ob' = \<lparr>mro = mro ob, args = [Val m, ListRef el, ListRef sl],
                 exc_traceback = exc_traceback ob, exc_context = exc_context ob,
                 exc_cause = exc_cause ob, suppress_context = suppress_context ob,
                 message = Some m, exceptions = Some (length (lists s) + 0),
                 sources = Some (Suc (length (lists s) + 0)), others = []\<rparr>"
  define s' where "s' = s\<lparr>lists := lists s @ [] @ [xs, ys], objs := objs s @ [ob']\<rparr>"
  have r: "copy repr s g = (s', Inr (length (objs s)))"
    unfolding copy_Inr[OF g(1) mm el sl g(6) g(5)] by (simp add: s'_def ob'_def)
  have e: "extends_store s s'" unfolding s'_def by (rule extends_store_append)
  have "group_at s' (length (objs s)) ob' m xs ys"
    unfolding s'_def by (rule group_at_built[OF ob'_def _ g(5) all]) simp
  with r e el(1) sl(1) show ?thesis unfolding ob'_def by blast
qed

section \<open>Chain slots of the new instance\<close>

lemma ex_group_at:
  "group_at ex_store 2 ex_group (PStr ''many error.'') [PExc 0, PExc 1] [PStr ''A'', PStr ''B'']"
  by (simp add: group_at_def ex_store_def ex_group_def get_inst_def self_message_def
      exceptions_of_def sources_of_def self_exceptions_def self_sources_def py_list_def
      get_list_def)

text \<open>The side effect that makes the order of the four assignments matter.\<close>

lemma set_cause_sets_suppress_context:
  "dst < length (objs s) \<Longrightarrow> slot (set_cause s dst v) dst suppress_context False = True"
  by (simp add: set_cause_def upd_inst_def slot_def get_inst_def)

text \<open>The address of the next instance is not yet in use.\<close>

lemma fresh_address:
  assumes "get_inst s g = Some ob"
  shows "length (objs s) \<noteq> g" and "get_inst s (length (objs s)) = None"
  using assms by (simp_all add: get_inst_def split: if_splits)

text \<open>
  C2. On a well-formed group, \<^verbatim>\<open>__copy__\<close>, \<^verbatim>\<open>add\<close> (of an exception) and
  \<^verbatim>\<open>remove\<close> (of a member) each return a new instance: one at an address other than
  the original's that held no instance before the call. Its \<^verbatim>\<open>__cause__\<close>,
  \<^verbatim>\<open>__context__\<close> and \<^verbatim>\<open>__suppress_context__\<close> are those of the original, and
  the original is as it was, with its own chain slots, message, children and sources.
  Since \<^verbatim>\<open>__suppress_context__\<close> is assigned after \<^verbatim>\<open>__cause__\<close>, this holds also
  when the original has a cause and a false \<^verbatim>\<open>__suppress_context__\<close>.
\<close>

theorem chain_fields_preserved:
  assumes "group_at s g ob m xs ys"
  shows "(\<exists>s' g' ob'. copy repr s g = (s', Inr g')
            \<and> g' \<noteq> g \<and> get_inst s g' = None \<and> get_inst s' g' = Some ob'
            \<and> exc_cause ob' = exc_cause ob \<and> exc_context ob' = exc_context ob
            \<and> suppress_context ob' = suppress_context ob
            \<and> group_at s' g ob m xs ys)
       \<and> (is_BaseException x \<longrightarrow>
            (\<exists>s' g' ob'. add repr s g x src = (s', Inr g')
              \<and> g' \<noteq> g \<and> get_inst s g' = None \<and> get_inst s' g' = Some ob'
              \<and> exc_cause ob' = exc_cause ob \<and> exc_context ob' = exc_context ob
              \<and> suppress_context ob' = suppress_context ob
              \<and> group_at s' g ob m xs ys))
       \<and> (y \<in> set xs \<longrightarrow>
            (\<exists>s' g' ob'. remove repr s g y = (s', Inr g')
              \<and> g' \<noteq> g \<and> get_inst s g' = None \<and> get_inst s' g' = Some ob'
              \<and> exc_cause ob' = exc_cause ob \<and> exc_context ob' = exc_context ob
              \<and> suppress_context ob' = suppress_context ob
              \<and> group_at s' g ob m xs ys))"
proof (intro conjI impI)
  note fr = fresh_address[OF group_atD(1)[OF assms]]
  {
    from copy_post[OF assms, of repr] obtain s' ob' where
      r: "copy repr s g = (s', Inr (length (objs s)))" and e: "extends_store s s'"
      and G: "group_at s' (length (objs s)) ob' m xs ys"
      and ch: "exc_cause ob' = exc_cause ob" "exc_context ob' = exc_context ob"
        "suppress_context ob' = suppress_context ob"
      by (fastforce simp: group_at_def)
    from r fr group_atD(1)[OF G] ch group_at_extends[OF assms e]
    show "\<exists>s' g' ob'. copy repr s g = (s', Inr g')
            \<and> g' \<noteq> g \<and> get_inst s g' = None \<and> get_inst s' g' = Some ob'
            \<and> exc_cause ob' = exc_cause ob \<and> exc_context ob' = exc_context ob
            \<and> suppress_context ob' = suppress_context ob
            \<and> group_at s' g ob m xs ys"
      by blast
  }
  {
    assume "is_BaseException x"
    from add_post[OF assms this, of repr src] obtain s' ob' where
      r: "add repr s g x src = (s', Inr (length (objs s)))" and e: "extends_store s s'"
      and G: "group_at s' (length (objs s)) ob' m (xs @ [x]) (ys @ [src])"
      and ch: "exc_cause ob' = exc_cause ob" "exc_context ob' = exc_context ob"
        "suppress_context ob' = suppress_context ob"
      by (fastforce simp: group_at_def)
    from r fr group_atD(1)[OF G] ch group_at_extends[OF assms e]
    show "\<exists>s' g' ob'. add repr s g x src = (s', Inr g')
              \<and> g' \<noteq> g \<and> get_inst s g' = None \<and> get_inst s' g' = Some ob'
              \<and> exc_cause ob' = exc_cause ob \<and> exc_context ob' = exc_context ob
              \<and> suppress_context ob' = suppress_context ob
              \<and> group_at s' g ob m xs ys"
      by blast
  }
  {
    assume "y \<in> set xs"
    then obtain i where "index xs y = Some i"
      by (cases "index xs y") (auto simp: index_None)
    from remove_post[OF assms this, of repr] obtain s' ob' where
      r: "remove repr s g y = (s', Inr (length (objs s)))" and e: "extends_store s s'"
      and G: "group_at s' (length (objs s)) ob' m (take i xs @ drop (Suc i) xs)
                (take i ys @ drop (Suc i) ys)"
      and ch: "exc_cause ob' = exc_cause ob" "exc_context ob' = exc_context ob"
        "suppress_context ob' = suppress_context ob"
      by (fastforce simp: group_at_def)
    from r fr group_atD(1)[OF G] ch group_at_extends[OF assms e]
    show "\<exists>s' g' ob'. remove repr s g y = (s', Inr g')
              \<and> g' \<noteq> g \<and> get_inst s g' = None \<and> get_inst s' g' = Some ob'
              \<and> exc_cause ob' = exc_cause ob \<and> exc_context ob' = exc_context ob
              \<and> suppress_context ob' = suppress_context ob
              \<and> group_at s' g ob m xs ys"
      by blast
  }
qed

theorem chain_fields_preserved_witness:
  "exc_cause ex_group = Some 0 \<and> suppress_context ex_group = False
   \<and> (\<exists>s' g' ob'. copy ex_repr ex_store 2 = (s', Inr g')
         \<and> g' \<noteq> 2 \<and> get_inst ex_store g' = None \<and> get_inst s' g' = Some ob'
         \<and> exc_cause ob' = Some 0 \<and> exc_context ob' = Some 1
         \<and> suppress_context ob' = False
         \<and> group_at s' 2 ex_group (PStr ''many error.'') [PExc 0, PExc 1]
              [PStr ''A'', PStr ''B''])
   \<and> (\<exists>s' g' ob'. add ex_repr ex_store 2 (PExc 3) (PStr []) = (s', Inr g')
         \<and> g' \<noteq> 2 \<and> get_inst ex_store g' = None \<and> get_inst s' g' = Some ob'
         \<and> exc_cause ob' = Some 0 \<and> exc_context ob' = Some 1
         \<and> suppress_context ob' = False
         \<and> group_at s' 2 ex_group (PStr ''many error.'') [PExc 0, PExc 1]
              [PStr ''A'', PStr ''B''])
   \<and> (\<exists>s' g' ob'. remove ex_repr ex_store 2 (PExc 1) = (s', Inr g')
         \<and> g' \<noteq> 2 \<and> get_inst ex_store g' = None \<and> get_inst s' g' = Some ob'
         \<and> exc_cause ob' = Some 0 \<and> exc_context ob' = Some 1
         \<and> suppress_context ob' = False
         \<and> group_at s' 2 ex_group (PStr ''many error.'') [PExc 0, PExc 1]
              [PStr ''A'', PStr ''B''])"
  using chain_fields_preserved[OF ex_group_at,
      where repr = ex_repr and x = "PExc 3" and src = "PStr []" and y = "PExc 1"]
  by (simp add: ex_group_def)

section \<open>Every field of the new instance\<close>

text \<open>
  C10. The instance that \<^verbatim>\<open>__copy__\<close>, \<^verbatim>\<open>add\<close> and \<^verbatim>\<open>remove\<close> return on a
  well-formed group is, field by field: the class of the original; \<^verbatim>\<open>args\<close> made of
  the original's message and the two lists passed to the constructor; the original's
  \<^verbatim>\<open>__traceback__\<close>, \<^verbatim>\<open>__context__\<close>, \<^verbatim>\<open>__cause__\<close> and
  \<^verbatim>\<open>__suppress_context__\<close>; the original's message; new lists for the children and
  the sources; and no other attribute, whatever other attributes and \<^verbatim>\<open>args\<close> the
  original has.
\<close>

theorem new_instance_fields:
  assumes "group_at s g ob m xs ys"
  shows "(\<exists>s' g' a1 a2 l1 l2. copy repr s g = (s', Inr g')
            \<and> get_inst s' g' =
                Some \<lparr>mro = mro ob, args = [Val m, ListRef a1, ListRef a2],
                      exc_traceback = exc_traceback ob, exc_context = exc_context ob,
                      exc_cause = exc_cause ob, suppress_context = suppress_context ob,
                      message = Some m, exceptions = Some l1, sources = Some l2, others = []\<rparr>
            \<and> exceptions ob = Some a1 \<and> sources ob = Some a2
            \<and> get_list s' l1 = Some xs \<and> get_list s' l2 = Some ys)
       \<and> (is_BaseException x \<longrightarrow>
            (\<exists>s' g' a1 a2 l1 l2. add repr s g x src = (s', Inr g')
              \<and> get_inst s' g' =
                  Some \<lparr>mro = mro ob, args = [Val m, ListRef a1, ListRef a2],
                        exc_traceback = exc_traceback ob, exc_context = exc_context ob,
                        exc_cause = exc_cause ob, suppress_context = suppress_context ob,
                        message = Some m, exceptions = Some l1, sources = Some l2, others = []\<rparr>
              \<and> get_list s' a1 = Some (xs @ [x]) \<and> get_list s' a2 = Some (ys @ [src])
              \<and> get_list s' l1 = Some (xs @ [x]) \<and> get_list s' l2 = Some (ys @ [src])))
       \<and> (index xs y = Some i \<longrightarrow>
            (\<exists>s' g' a1 a2 l1 l2. remove repr s g y = (s', Inr g')
              \<and> get_inst s' g' =
                  Some \<lparr>mro = mro ob, args = [Val m, ListRef a1, ListRef a2],
                        exc_traceback = exc_traceback ob, exc_context = exc_context ob,
                        exc_cause = exc_cause ob, suppress_context = suppress_context ob,
                        message = Some m, exceptions = Some l1, sources = Some l2, others = []\<rparr>
              \<and> get_list s' a1 = Some (take i xs @ drop (Suc i) xs)
              \<and> get_list s' a2 = Some (take i ys @ drop (Suc i) ys)
              \<and> get_list s' l1 = Some (take i xs @ drop (Suc i) xs)
              \<and> get_list s' l2 = Some (take i ys @ drop (Suc i) ys)))"
proof (intro conjI impI)
  from copy_post[OF assms, of repr] obtain s' el sl ob' where
    r: "copy repr s g = (s', Inr (length (objs s)))"
    and a: "exceptions ob = Some el" "sources ob = Some sl"
    and ob': "ob' = \<lparr>mro = mro ob, args = [Val m, ListRef el, ListRef sl],
                 exc_traceback = exc_traceback ob, exc_context = exc_context ob,
                 exc_cause = exc_cause ob, suppress_context = suppress_context ob,
                 message = Some m, exceptions = Some (length (lists s) + 0),
                 sources = Some (Suc (length (lists s) + 0)), others = []\<rparr>"
    and G: "group_at s' (length (objs s)) ob' m xs ys"
    by blast
  from group_atD(1,3,4)[OF G] exceptions_of_InrD sources_of_InrD
  have "get_inst s' (length (objs s)) = Some ob'"
    and "get_list s' (length (lists s) + 0) = Some xs"
    and "get_list s' (Suc (length (lists s) + 0)) = Some ys"
    by (fastforce simp: ob')+
  with r a show "\<exists>s' g' a1 a2 l1 l2. copy repr s g = (s', Inr g')
            \<and> get_inst s' g' =
                Some \<lparr>mro = mro ob, args = [Val m, ListRef a1, ListRef a2],
                      exc_traceback = exc_traceback ob, exc_context = exc_context ob,
                      exc_cause = exc_cause ob, suppress_context = suppress_context ob,
                      message = Some m, exceptions = Some l1, sources = Some l2, others = []\<rparr>
            \<and> exceptions ob = Some a1 \<and> sources ob = Some a2
            \<and> get_list s' l1 = Some xs \<and> get_list s' l2 = Some ys"
    unfolding ob' by blast
next
  assume "is_BaseException x"
  from add_post[OF assms this, of repr src] obtain s' ob' where
    r: "add repr s g x src = (s', Inr (length (objs s)))"
    and a: "get_list s' (length (lists s)) = Some (xs @ [x])"
           "get_list s' (Suc (length (lists s))) = Some (ys @ [src])"
    and ob': "ob' = \<lparr>mro = mro ob,
                 args = [Val m, ListRef (length (lists s)), ListRef (Suc (length (lists s)))],
                 exc_traceback = exc_traceback ob, exc_context = exc_context ob,
                 exc_cause = exc_cause ob, suppress_context = suppress_context ob,
                 message = Some m, exceptions = Some (length (lists s) + 2),
                 sources = Some (Suc (length (lists s) + 2)), others = []\<rparr>"
    and G: "group_at s' (length (objs s)) ob' m (xs @ [x]) (ys @ [src])"
    by blast
  from group_atD(1,3,4)[OF G] exceptions_of_InrD sources_of_InrD
  have "get_inst s' (length (objs s)) = Some ob'"
    and "get_list s' (length (lists s) + 2) = Some (xs @ [x])"
    and "get_list s' (Suc (length (lists s) + 2)) = Some (ys @ [src])"
    by (fastforce simp: ob')+
  with r a show "\<exists>s' g' a1 a2 l1 l2. add repr s g x src = (s', Inr g')
              \<and> get_inst s' g' =
                  Some \<lparr>mro = mro ob, args = [Val m, ListRef a1, ListRef a2],
                        exc_traceback = exc_traceback ob, exc_context = exc_context ob,
                        exc_cause = exc_cause ob, suppress_context = suppress_context ob,
                        message = Some m, exceptions = Some l1, sources = Some l2, others = []\<rparr>
              \<and> get_list s' a1 = Some (xs @ [x]) \<and> get_list s' a2 = Some (ys @ [src])
              \<and> get_list s' l1 = Some (xs @ [x]) \<and> get_list s' l2 = Some (ys @ [src])"
    unfolding ob' by blast
next
  assume "index xs y = Some i"
  from remove_post[OF assms this, of repr] obtain s' ob' where
    r: "remove repr s g y = (s', Inr (length (objs s)))"
    and a: "get_list s' (length (lists s)) = Some (take i xs @ drop (Suc i) xs)"
           "get_list s' (Suc (length (lists s))) = Some (take i ys @ drop (Suc i) ys)"
    and ob': "ob' = \<lparr>mro = mro ob,
                 args = [Val m, ListRef (length (lists s)), ListRef (Suc (length (lists s)))],
                 exc_traceback = exc_traceback ob, exc_context = exc_context ob,
                 exc_cause = exc_cause ob, suppress_context = suppress_context ob,
                 message = Some m, exceptions = Some (length (lists s) + 2),
                 sources = Some (Suc (length (lists s) + 2)), others = []\<rparr>"
    and G: "group_at s' (length (objs s)) ob' m (take i xs @ drop (Suc i) xs)
              (take i ys @ drop (Suc i) ys)"
    by blast
  from group_atD(1,3,4)[OF G] exceptions_of_InrD sources_of_InrD
  have "get_inst s' (length (objs s)) = Some ob'"
    and "get_list s' (length (lists s) + 2) = Some (take i xs @ drop (Suc i) xs)"
    and "get_list s' (Suc (length (lists s) + 2)) = Some (take i ys @ drop (Suc i) ys)"
    by (fastforce simp: ob')+
  with r a show "\<exists>s' g' a1 a2 l1 l2. remove repr s g y = (s', Inr g')
              \<and> get_inst s' g' =
                  Some \<lparr>mro = mro ob, args = [Val m, ListRef a1, ListRef a2],
                        exc_traceback = exc_traceback ob, exc_context = exc_context ob,
                        exc_cause = exc_cause ob, suppress_context = suppress_context ob,
                        message = Some m, exceptions = Some l1, sources = Some l2, others = []\<rparr>
              \<and> get_list s' a1 = Some (take i xs @ drop (Suc i) xs)
              \<and> get_list s' a2 = Some (take i ys @ drop (Suc i) ys)
              \<and> get_list s' l1 = Some (take i xs @ drop (Suc i) xs)
              \<and> get_list s' l2 = Some (take i ys @ drop (Suc i) ys)"
    unfolding ob' by blast
qed

theorem new_instance_fields_witness:
  "others ex_group = [(''note'', PInt 1)]
   \<and> args ex_group = [Val (PStr ''many error.''), ListRef 0, ListRef 1]
   \<and> (\<exists>s' g' a1 a2 l1 l2. copy ex_repr ex_store 2 = (s', Inr g')
            \<and> get_inst s' g' =
                Some \<lparr>mro = ExceptionGroup_cls,
                      args = [Val (PStr ''many error.''), ListRef a1, ListRef a2],
                      exc_traceback = Some 7, exc_context = Some 1,
                      exc_cause = Some 0, suppress_context = False,
                      message = Some (PStr ''many error.''),
                      exceptions = Some l1, sources = Some l2, others = []\<rparr>
            \<and> Some 2 = Some a1 \<and> Some 3 = Some a2
            \<and> get_list s' l1 = Some [PExc 0, PExc 1]
            \<and> get_list s' l2 = Some [PStr ''A'', PStr ''B''])
   \<and> (\<exists>s' g' a1 a2 l1 l2. add ex_repr ex_store 2 (PExc 3) (PStr []) = (s', Inr g')
            \<and> get_inst s' g' =
                Some \<lparr>mro = ExceptionGroup_cls,
                      args = [Val (PStr ''many error.''), ListRef a1, ListRef a2],
                      exc_traceback = Some 7, exc_context = Some 1,
                      exc_cause = Some 0, suppress_context = False,
                      message = Some (PStr ''many error.''),
                      exceptions = Some l1, sources = Some l2, others = []\<rparr>
            \<and> get_list s' a1 = Some [PExc 0, PExc 1, PExc 3]
            \<and> get_list s' a2 = Some [PStr ''A'', PStr ''B'', PStr []]
            \<and> get_list s' l1 = Some [PExc 0, PExc 1, PExc 3]
            \<and> get_list s' l2 = Some [PStr ''A'', PStr ''B'', PStr []])
   \<and> (\<exists>s' g' a1 a2 l1 l2. remove ex_repr ex_store 2 (PExc 0) = (s', Inr g')
            \<and> get_inst s' g' =
                Some \<lparr>mro = ExceptionGroup_cls,
                      args = [Val (PStr ''many error.''), ListRef a1, ListRef a2],
                      exc_traceback = Some 7, exc_context = Some 1,
                      exc_cause = Some 0, suppress_context = False,
                      message = Some (PStr ''many error.''),
                      exceptions = Some l1, sources = Some l2, others = []\<rparr>
            \<and> get_list s' a1 = Some [PExc 1]
            \<and> get_list s' a2 = Some [PStr ''B'']
            \<and> get_list s' l1 = Some [PExc 1]
            \<and> get_list s' l2 = Some [PStr ''B''])"
  using new_instance_fields[OF ex_group_at,
      where repr = ex_repr and x = "PExc 3" and src = "PStr []" and y = "PExc 0" and i = 0]
  by (simp add: ex_group_def)

section \<open>Removing a child\<close>

text \<open>
  C3. On a well-formed group, \<^verbatim>\<open>remove\<close> of a child that is present returns a new
  instance, distinct from the original, whose children and sources are the original
  lists without position \<open>i\<close>, the first position holding the child; its message and its
  \<^verbatim>\<open>__cause__\<close>, \<^verbatim>\<open>__context__\<close> and \<^verbatim>\<open>__suppress_context__\<close> are the
  original's, and the original is as before. \<^verbatim>\<open>remove\<close> of a value that is not
  present raises \<^verbatim>\<open>ValueError\<close> with the \<^verbatim>\<open>repr\<close> of the value and of the group, and
  leaves the whole store as it was.
\<close>

theorem remove_present_or_absent:
  assumes "group_at s g ob m xs ys"
  shows "(x \<in> set xs \<longrightarrow>
            (\<exists>s' g' ob' i. remove repr s g x = (s', Inr g') \<and> g' \<noteq> g
               \<and> i < length xs \<and> xs ! i = x \<and> (\<forall>j<i. xs ! j \<noteq> x)
               \<and> group_at s' g' ob' m (take i xs @ drop (Suc i) xs) (take i ys @ drop (Suc i) ys)
               \<and> exc_cause ob' = exc_cause ob \<and> exc_context ob' = exc_context ob
               \<and> suppress_context ob' = suppress_context ob
               \<and> group_at s' g ob m xs ys))
       \<and> (x \<notin> set xs \<longrightarrow>
            (\<exists>r. repr_group repr s g = Inr r
               \<and> remove repr s g x =
                   (s, Inl (ValueError (repr s x @ '' not contained in '' @ r)))))"
proof (intro conjI impI)
  assume "x \<in> set xs"
  then obtain i where i: "index xs x = Some i"
    by (cases "index xs x") (auto simp: index_None)
  note pos = index_Some[OF i]
  from remove_post[OF assms i, of repr] obtain s' ob' where
    r: "remove repr s g x = (s', Inr (length (objs s)))"
    and e: "extends_store s s'"
    and ob': "ob' = \<lparr>mro = mro ob,
                 args = [Val m, ListRef (length (lists s)), ListRef (Suc (length (lists s)))],
                 exc_traceback = exc_traceback ob, exc_context = exc_context ob,
                 exc_cause = exc_cause ob, suppress_context = suppress_context ob,
                 message = Some m, exceptions = Some (length (lists s) + 2),
                 sources = Some (Suc (length (lists s) + 2)), others = []\<rparr>"
    and G: "group_at s' (length (objs s)) ob' m (take i xs @ drop (Suc i) xs)
              (take i ys @ drop (Suc i) ys)"
    by blast
  from group_atD(1)[OF assms] have "g < length (objs s)" by (simp add: get_inst_SomeD)
  then have ne: "length (objs s) \<noteq> g" by simp
  have ch: "exc_cause ob' = exc_cause ob" "exc_context ob' = exc_context ob"
    "suppress_context ob' = suppress_context ob"
    by (simp_all add: ob')
  from r ne pos G ch group_at_extends[OF assms e]
  show "\<exists>s' g' ob' i. remove repr s g x = (s', Inr g') \<and> g' \<noteq> g
               \<and> i < length xs \<and> xs ! i = x \<and> (\<forall>j<i. xs ! j \<noteq> x)
               \<and> group_at s' g' ob' m (take i xs @ drop (Suc i) xs) (take i ys @ drop (Suc i) ys)
               \<and> exc_cause ob' = exc_cause ob \<and> exc_context ob' = exc_context ob
               \<and> suppress_context ob' = suppress_context ob
               \<and> group_at s' g ob m xs ys"
    by blast
next
  assume "x \<notin> set xs"
  then have i: "index xs x = None" by (simp add: index_None)
  have "repr_group repr s g = Inr (''<ExceptionGroup: '' @ join (map (repr s) xs) @ ''>'')"
    by (simp add: repr_group_def str_group_def group_atD(3)[OF assms])
  with remove_ValueError[OF group_atD(3)[OF assms] i, of repr]
  show "\<exists>r. repr_group repr s g = Inr r
               \<and> remove repr s g x =
                   (s, Inl (ValueError (repr s x @ '' not contained in '' @ r)))"
    by simp
qed

theorem remove_present_or_absent_witness:
  "(\<exists>s' g' ob'. remove ex_repr ex_store 2 (PExc 1) = (s', Inr g') \<and> g' \<noteq> 2
       \<and> group_at s' g' ob' (PStr ''many error.'') [PExc 0] [PStr ''A'']
       \<and> exc_cause ob' = Some 0 \<and> exc_context ob' = Some 1 \<and> suppress_context ob' = False
       \<and> group_at s' 2 ex_group (PStr ''many error.'') [PExc 0, PExc 1] [PStr ''A'', PStr ''B''])
   \<and> remove ex_repr ex_store 2 (PExc 3) =
       (ex_store, Inl (ValueError
          ''TypeError() not contained in <ExceptionGroup: ValueError(), RuntimeError()>''))"
proof
  from remove_present_or_absent[OF ex_group_at, of "PExc 1" ex_repr]
  obtain s' g' ob' i where
    r: "remove ex_repr ex_store 2 (PExc 1) = (s', Inr g')" "g' \<noteq> 2"
    and i: "i < length [PExc 0, PExc 1]" "[PExc 0, PExc 1] ! i = PExc 1"
    and G: "group_at s' g' ob' (PStr ''many error.'')
              (take i [PExc 0, PExc 1] @ drop (Suc i) [PExc 0, PExc 1])
              (take i [PStr ''A'', PStr ''B''] @ drop (Suc i) [PStr ''A'', PStr ''B''])"
    and ch: "exc_cause ob' = exc_cause ex_group" "exc_context ob' = exc_context ex_group"
      "suppress_context ob' = suppress_context ex_group"
    and G0: "group_at s' 2 ex_group (PStr ''many error.'') [PExc 0, PExc 1] [PStr ''A'', PStr ''B'']"
    by auto
  from i have "i = Suc 0" by (cases i) auto
  with G have "group_at s' g' ob' (PStr ''many error.'') [PExc 0] [PStr ''A'']" by simp
  with r ch G0
  show "\<exists>s' g' ob'. remove ex_repr ex_store 2 (PExc 1) = (s', Inr g') \<and> g' \<noteq> 2
       \<and> group_at s' g' ob' (PStr ''many error.'') [PExc 0] [PStr ''A'']
       \<and> exc_cause ob' = Some 0 \<and> exc_context ob' = Some 1 \<and> suppress_context ob' = False
       \<and> group_at s' 2 ex_group (PStr ''many error.'') [PExc 0, PExc 1] [PStr ''A'', PStr ''B'']"
    by (auto simp: ex_group_def)
  have "repr_group ex_repr ex_store 2 = Inr ''<ExceptionGroup: ValueError(), RuntimeError()>''"
    by (simp add: repr_group_def str_group_def group_atD(3)[OF ex_group_at] ex_repr_def)
      (simp add: ex_store_def get_inst_def ex_exception_def BaseException_new_def)
  moreover have "ex_repr ex_store (PExc 3) = ''TypeError()''"
    by (simp add: ex_repr_def ex_store_def get_inst_def ex_exception_def BaseException_new_def)
  ultimately
  show "remove ex_repr ex_store 2 (PExc 3) =
       (ex_store, Inl (ValueError
          ''TypeError() not contained in <ExceptionGroup: ValueError(), RuntimeError()>''))"
    using remove_present_or_absent[OF ex_group_at, of "PExc 3" ex_repr] by simp
qed

section \<open>Adding and removing again\<close>

text \<open>
  C4. For a well-formed group and an exception that is not among its children, adding the
  exception with any source and removing it from the result gives a group with the
  message, the children and the sources of the original.
\<close>

theorem add_remove_round_trip:
  assumes "group_at s g ob m xs ys" and "is_BaseException x" and "x \<notin> set xs"
  shows "\<exists>s1 g1 s2 g2 ob2. add repr s g x src = (s1, Inr g1)
           \<and> remove repr s1 g1 x = (s2, Inr g2)
           \<and> group_at s2 g2 ob2 m xs ys"
proof -
  from add_post[OF assms(1,2), of repr src] obtain s1 ob1 where
    a: "add repr s g x src = (s1, Inr (length (objs s)))"
    and G1: "group_at s1 (length (objs s)) ob1 m (xs @ [x]) (ys @ [src])"
    by blast
  have i: "index (xs @ [x]) x = Some (length xs)"
    by (rule index_append_fresh[OF assms(3)])
  from remove_post[OF G1 i, of repr] obtain s2 ob2 where
    r: "remove repr s1 (length (objs s)) x = (s2, Inr (length (objs s1)))"
    and G2: "group_at s2 (length (objs s1)) ob2 m
               (take (length xs) (xs @ [x]) @ drop (Suc (length xs)) (xs @ [x]))
               (take (length xs) (ys @ [src]) @ drop (Suc (length xs)) (ys @ [src]))"
    by blast
  from group_atD(5)[OF assms(1)] G2 have "group_at s2 (length (objs s1)) ob2 m xs ys"
    by simp
  with a r show ?thesis by blast
qed

theorem add_remove_round_trip_witness:
  "\<exists>s1 g1 s2 g2 ob2. add ex_repr ex_store 2 (PExc 3) (PStr ''s'') = (s1, Inr g1)
           \<and> remove ex_repr s1 g1 (PExc 3) = (s2, Inr g2)
           \<and> group_at s2 g2 ob2 (PStr ''many error.'') [PExc 0, PExc 1] [PStr ''A'', PStr ''B'']"
  by (rule add_remove_round_trip[OF ex_group_at]) simp_all

section \<open>The length invariant\<close>

lemma ExceptionGroup_lengths_agree:
  assumes "ExceptionGroup repr s cls msg excs srcs = (s', Inr g')"
  shows "lengths_agree s' g'"
  using assms
  by (auto simp: ExceptionGroup_def new_inst_def new_list_def upd_inst_def py_list_def
      get_list_def Let_def lengths_agree_def exceptions_of_def sources_of_def
      self_exceptions_def self_sources_def get_inst_def nth_append
      split: sum.splits option.splits if_splits)

lemma exceptions_of_upd_inst:
  assumes "\<And>ob. exceptions (f ob) = exceptions ob"
  shows "exceptions_of (upd_inst s d f) c = exceptions_of s c"
  using assms
  by (cases "c = d")
    (auto simp: exceptions_of_def self_exceptions_def get_inst_def upd_inst_def py_list_def
      get_list_def split: option.splits)

lemma sources_of_upd_inst:
  assumes "\<And>ob. sources (f ob) = sources ob"
  shows "sources_of (upd_inst s d f) c = sources_of s c"
  using assms
  by (cases "c = d")
    (auto simp: sources_of_def self_sources_def get_inst_def upd_inst_def py_list_def
      get_list_def split: option.splits)

lemma exceptions_of_copy_magic_attrs:
  "exceptions_of (copy_magic_attrs s a b) c = exceptions_of s c"
  by (simp add: copy_magic_attrs_def Let_def set_traceback_def set_context_def
      set_cause_def set_suppress_context_def exceptions_of_upd_inst)

lemma sources_of_copy_magic_attrs:
  "sources_of (copy_magic_attrs s a b) c = sources_of s c"
  by (simp add: copy_magic_attrs_def Let_def set_traceback_def set_context_def
      set_cause_def set_suppress_context_def sources_of_upd_inst)

lemma lengths_agree_copy_magic_attrs:
  "lengths_agree (copy_magic_attrs s a b) c = lengths_agree s c"
  by (simp only: lengths_agree_def exceptions_of_copy_magic_attrs sources_of_copy_magic_attrs)

lemma add_lengths_agree:
  assumes "add repr s g x src = (s', Inr g')"
  shows "lengths_agree s' g'"
  using assms
  by (auto simp: add_def new_list_def Let_def lengths_agree_copy_magic_attrs
      split: sum.splits prod.splits dest: ExceptionGroup_lengths_agree)

lemma remove_lengths_agree:
  assumes "remove repr s g x = (s', Inr g')"
  shows "lengths_agree s' g'"
  using assms
  by (auto simp: remove_def new_list_def Let_def lengths_agree_copy_magic_attrs
      split: sum.splits prod.splits option.splits dest: ExceptionGroup_lengths_agree)

lemma copy_lengths_agree:
  assumes "copy repr s g = (s', Inr g')"
  shows "lengths_agree s' g'"
  using assms
  by (auto simp: copy_def lengths_agree_copy_magic_attrs
      split: sum.splits prod.splits dest: ExceptionGroup_lengths_agree)

text \<open>
  C7. Every instance that the constructor, \<^verbatim>\<open>add\<close>, \<^verbatim>\<open>remove\<close> or \<^verbatim>\<open>__copy__\<close>
  returns has as many sources as exceptions. The last three end in a constructor call,
  so they return such an instance from every receiver, in particular from one that
  satisfies the invariant.
\<close>

theorem lengths_invariant:
  "(ExceptionGroup repr s cls msg excs srcs = (s', Inr g') \<longrightarrow> lengths_agree s' g')
   \<and> (add repr s g x src = (s', Inr g') \<longrightarrow> lengths_agree s' g')
   \<and> (remove repr s g x = (s', Inr g') \<longrightarrow> lengths_agree s' g')
   \<and> (copy repr s g = (s', Inr g') \<longrightarrow> lengths_agree s' g')"
proof (intro conjI impI)
  assume "ExceptionGroup repr s cls msg excs srcs = (s', Inr g')"
  then show "lengths_agree s' g'" by (rule ExceptionGroup_lengths_agree)
next
  assume "add repr s g x src = (s', Inr g')"
  then show "lengths_agree s' g'" by (rule add_lengths_agree)
next
  assume "remove repr s g x = (s', Inr g')"
  then show "lengths_agree s' g'" by (rule remove_lengths_agree)
next
  assume "copy repr s g = (s', Inr g')"
  then show "lengths_agree s' g'" by (rule copy_lengths_agree)
qed

theorem lengths_invariant_witness:
  "lengths_agree ex_store 2
   \<and> (\<exists>s' g'. ExceptionGroup ex_repr ex_store ExceptionGroup_cls (PStr ''E'') 0 1 = (s', Inr g')
         \<and> lengths_agree s' g')
   \<and> (\<exists>s' g'. add ex_repr ex_store 2 (PExc 3) (PStr []) = (s', Inr g') \<and> lengths_agree s' g')
   \<and> (\<exists>s' g'. remove ex_repr ex_store 2 (PExc 0) = (s', Inr g') \<and> lengths_agree s' g')
   \<and> (\<exists>s' g'. copy ex_repr ex_store 2 = (s', Inr g') \<and> lengths_agree s' g')"
proof (intro conjI)
  show "lengths_agree ex_store 2"
    using ex_group_at by (simp add: lengths_agree_def group_at_def)
  have "\<exists>s' g'. ExceptionGroup ex_repr ex_store ExceptionGroup_cls (PStr ''E'') 0 1 = (s', Inr g')"
    using ExceptionGroup_Inr[of ex_store 0 "[PExc 0, PExc 1]" 1 "[PStr ''A'', PStr ''B'']"
        ex_repr ExceptionGroup_cls "PStr ''E''"]
    by (simp add: ex_store_def get_list_def)
  then show "\<exists>s' g'. ExceptionGroup ex_repr ex_store ExceptionGroup_cls (PStr ''E'') 0 1
                  = (s', Inr g') \<and> lengths_agree s' g'"
    using lengths_invariant by blast
  have "\<exists>s' g'. add ex_repr ex_store 2 (PExc 3) (PStr []) = (s', Inr g')"
    using add_post[OF ex_group_at, of "PExc 3" ex_repr "PStr []"] by auto
  then show "\<exists>s' g'. add ex_repr ex_store 2 (PExc 3) (PStr []) = (s', Inr g')
                \<and> lengths_agree s' g'"
    using lengths_invariant by blast
  have "\<exists>s' g'. remove ex_repr ex_store 2 (PExc 0) = (s', Inr g')"
    using remove_post[OF ex_group_at, of "PExc 0" 0 ex_repr] by auto
  then show "\<exists>s' g'. remove ex_repr ex_store 2 (PExc 0) = (s', Inr g') \<and> lengths_agree s' g'"
    using lengths_invariant by blast
  have "\<exists>s' g'. copy ex_repr ex_store 2 = (s', Inr g')"
    using copy_post[OF ex_group_at, of ex_repr] by auto
  then show "\<exists>s' g'. copy ex_repr ex_store 2 = (s', Inr g') \<and> lengths_agree s' g'"
    using lengths_invariant by blast
qed

section \<open>Searching\<close>

lemma with_sources_zip:
  "with_sources p xs ys =
     map (\<lambda>(exception, source). WithSource exception source)
       (filter (\<lambda>(exception, source). p exception) (zip xs ys))"
  by (induction p xs ys rule: with_sources.induct) auto

lemma item_exception_with_sources:
  "length xs = length ys \<Longrightarrow>
   map item_exception (with_sources p xs ys) = filter p xs"
  by (induction p xs ys rule: with_sources.induct) auto

lemma find_filter:
  "List.find P xs = (case filter P xs of [] \<Rightarrow> None | x # rest \<Rightarrow> Some x)"
  by (induction xs) auto

lemma findall_bare:
  assumes "exceptions_of s g = Inr xs"
  shows "findall s g p False = (s, Inr (map Bare (filter (resolve p s) xs)))"
  using assms by (simp add: findall_def)

lemma findall_with_source:
  assumes "exceptions_of s g = Inr xs" and "sources_of s g = Inr ys"
  shows "findall s g p True = (s, Inr (with_sources (resolve p s) xs ys))"
  using assms by (simp add: findall_def)

text \<open>
  C8. On a well-formed group, \<^verbatim>\<open>findall\<close> yields the children that satisfy the
  predicate, in the order of the children: bare, or each paired with the source at its
  position when \<open>with_source\<close> is set, in which case the exceptions of the pairs are the
  same list. A type stands for the test that the class of the child is that type or a
  subclass, a tuple of types for the test that it is one of them. \<^verbatim>\<open>find\<close> returns the
  first item that \<^verbatim>\<open>findall\<close> yields and \<^verbatim>\<open>None\<close> exactly when no child satisfies the
  predicate. Both return the store they were given.
\<close>

theorem findall_find_results:
  assumes "group_at s g ob m xs ys"
  shows "findall s g p False = (s, Inr (map Bare (filter (resolve p s) xs)))
       \<and> findall s g p True =
           (s, Inr (map (\<lambda>(exception, source). WithSource exception source)
                     (filter (\<lambda>(exception, source). resolve p s exception) (zip xs ys))))
       \<and> (\<exists>items. findall s g p True = (s, Inr items)
             \<and> map item_exception items = filter (resolve p s) xs)
       \<and> find_item s g p False = (s, Inr (map_option Bare (List.find (resolve p s) xs)))
       \<and> find_item s g p True =
           (s, Inr (map_option (\<lambda>(exception, source). WithSource exception source)
                     (List.find (\<lambda>(exception, source). resolve p s exception) (zip xs ys))))
       \<and> (snd (find_item s g p w) = Inr None \<longleftrightarrow> (\<forall>exception\<in>set xs. \<not> resolve p s exception))
       \<and> resolve (Type t) s exc = (t \<in> set (mro_of s exc))
       \<and> resolve (Tuple ts) s exc = (\<exists>t\<in>set ts. t \<in> set (mro_of s exc))
       \<and> resolve (Callable f) s exc = f s exc"
proof -
  note G = group_atD[OF assms]
  have bare: "findall s g p False = (s, Inr (map Bare (filter (resolve p s) xs)))"
    by (rule findall_bare[OF G(3)])
  have ws: "findall s g p True = (s, Inr (with_sources (resolve p s) xs ys))"
    by (rule findall_with_source[OF G(3) G(4)])
  have ws_zip: "findall s g p True =
           (s, Inr (map (\<lambda>(exception, source). WithSource exception source)
                     (filter (\<lambda>(exception, source). resolve p s exception) (zip xs ys))))"
    by (simp only: ws with_sources_zip)
  have same: "\<exists>items. findall s g p True = (s, Inr items)
             \<and> map item_exception items = filter (resolve p s) xs"
    using ws item_exception_with_sources[OF G(5)] by blast
  have f0: "find_item s g p False = (s, Inr (map_option Bare (List.find (resolve p s) xs)))"
    by (simp add: find_item_def bare find_filter split: list.splits)
  have f1: "find_item s g p True =
           (s, Inr (map_option (\<lambda>(exception, source). WithSource exception source)
                     (List.find (\<lambda>(exception, source). resolve p s exception) (zip xs ys))))"
    by (simp add: find_item_def ws_zip find_filter split: list.splits)
  have none0: "List.find (resolve p s) xs = None \<longleftrightarrow> (\<forall>exception\<in>set xs. \<not> resolve p s exception)"
    by (auto simp: find_None_iff)
  have fst_zip: "set xs = fst ` set (zip xs ys)"
    using G(5) by (metis map_fst_zip set_map)
  have none1: "List.find (\<lambda>(exception, source). resolve p s exception) (zip xs ys) = None
                 \<longleftrightarrow> (\<forall>exception\<in>set xs. \<not> resolve p s exception)"
    unfolding fst_zip by (force simp: find_None_iff)
  have none: "snd (find_item s g p w) = Inr None
                \<longleftrightarrow> (\<forall>exception\<in>set xs. \<not> resolve p s exception)"
    using none0 none1 by (cases w) (simp_all add: f0 f1)
  have r: "resolve (Type t) s exc = (t \<in> set (mro_of s exc))"
    "resolve (Tuple ts) s exc = (\<exists>t\<in>set ts. t \<in> set (mro_of s exc))"
    "resolve (Callable f) s exc = f s exc"
    by (simp_all add: py_isinstance_def list_ex_iff)
  from bare ws_zip same f0 f1 none r show ?thesis by blast
qed

lemma ex_store_classes:
  "mro_of ex_store (PExc 0) = [''ValueError'', ''Exception'', ''BaseException'', ''object'']"
  "mro_of ex_store (PExc (Suc 0)) = [''RuntimeError'', ''Exception'', ''BaseException'', ''object'']"
  by (simp_all add: ex_store_def get_inst_def ex_exception_def BaseException_new_def)

theorem findall_find_results_witness:
  "findall ex_store 2 (Type ''ValueError'') False = (ex_store, Inr [Bare (PExc 0)])
   \<and> findall ex_store 2 (Tuple [''ValueError'', ''RuntimeError'']) True =
       (ex_store, Inr [WithSource (PExc 0) (PStr ''A''), WithSource (PExc 1) (PStr ''B'')])
   \<and> find_item ex_store 2 (Type ''Exception'') False = (ex_store, Inr (Some (Bare (PExc 0))))
   \<and> find_item ex_store 2 (Type ''RuntimeError'') True =
       (ex_store, Inr (Some (WithSource (PExc 1) (PStr ''B''))))
   \<and> find_item ex_store 2 (Callable (\<lambda>s e. e = PExc 1)) False =
       (ex_store, Inr (Some (Bare (PExc 1))))
   \<and> snd (find_item ex_store 2 (Type ''KeyError'') True) = Inr None"
proof (intro conjI)
  note t = findall_find_results[OF ex_group_at]
  show "findall ex_store 2 (Type ''ValueError'') False = (ex_store, Inr [Bare (PExc 0)])"
    using t[of "Type ''ValueError''"] by (simp del: mro_of.simps add: py_isinstance_def ex_store_classes)
  show "findall ex_store 2 (Tuple [''ValueError'', ''RuntimeError'']) True =
       (ex_store, Inr [WithSource (PExc 0) (PStr ''A''), WithSource (PExc 1) (PStr ''B'')])"
    using t[of "Tuple [''ValueError'', ''RuntimeError'']"]
    by (simp del: mro_of.simps add: py_isinstance_def ex_store_classes)
  show "find_item ex_store 2 (Type ''Exception'') False = (ex_store, Inr (Some (Bare (PExc 0))))"
    using t[of "Type ''Exception''"] by (simp del: mro_of.simps add: py_isinstance_def ex_store_classes)
  show "find_item ex_store 2 (Type ''RuntimeError'') True =
       (ex_store, Inr (Some (WithSource (PExc 1) (PStr ''B''))))"
    using t[of "Type ''RuntimeError''"] by (simp del: mro_of.simps add: py_isinstance_def ex_store_classes)
  show "find_item ex_store 2 (Callable (\<lambda>s e. e = PExc 1)) False =
       (ex_store, Inr (Some (Bare (PExc 1))))"
    using t[of "Callable (\<lambda>s e. e = PExc 1)"] by simp
  show "snd (find_item ex_store 2 (Type ''KeyError'') True) = Inr None"
    using t[of "Type ''KeyError''" True] by (simp del: mro_of.simps add: py_isinstance_def ex_store_classes)
qed

section \<open>Raising again\<close>

lemma set_cause_get_inst:
  assumes "get_inst s a = Some oa"
  shows "get_inst (set_cause s a c) a = Some (oa\<lparr>exc_cause := c, suppress_context := True\<rparr>)"
  using assms by (simp add: set_cause_def upd_inst_def get_inst_def split: if_splits)

lemma raise_from_exception:
  assumes "from_exception' = PNone \<or> is_BaseException from_exception'"
    and "get_inst s a = Some oa"
  shows "\<exists>s'. raise_from s (PExc a) from_exception' = (s', Exc a)
           \<and> get_inst s' a =
               Some (oa\<lparr>exc_cause := (case from_exception' of PExc c \<Rightarrow> Some c | _ \<Rightarrow> None),
                        suppress_context := True\<rparr>)"
  using assms by (cases from_exception') (simp_all add: set_cause_get_inst)

lemma ex_single_at: "group_at ex_store 4 ex_single (PStr ''E'') [PExc 3] [PStr ''C'']"
  by (simp add: group_at_def ex_store_def ex_single_def BaseException_new_def get_inst_def
      self_message_def exceptions_of_def sources_of_def self_exceptions_def self_sources_def
      py_list_def get_list_def)

lemma ex_empty_at: "group_at ex_store 5 ex_empty (PStr ''E'') [] []"
  by (simp add: group_at_def ex_store_def ex_empty_def BaseException_new_def get_inst_def
      self_message_def exceptions_of_def sources_of_def self_exceptions_def self_sources_def
      py_list_def get_list_def)

text \<open>
  C1. On a well-formed group, with \<open>from_exception\<close> the sentinel \<open>0\<close>, \<^verbatim>\<open>None\<close> or an
  exception instance, and \<open>cause\<close> the exception being handled for the sentinel and the
  argument itself otherwise: \<^verbatim>\<open>maybe_reraise\<close> returns normally, leaving the store as it
  is, when the group has no child; it raises the only child itself when \<open>unwrap\<close> is set
  and the group has exactly one child; it raises the group itself when \<open>unwrap\<close> is not
  set or the group has two or more children. The instance raised has \<open>cause\<close> as its
  \<^verbatim>\<open>__cause__\<close> (and a true \<^verbatim>\<open>__suppress_context__\<close>).
\<close>

theorem maybe_reraise_outcomes:
  assumes "group_at s g ob m xs ys"
    and "from_exception = PInt 0 \<or> from_exception = PNone \<or> is_BaseException from_exception"
    and "cause = (if from_exception = PInt 0 then handling s
                  else case from_exception of PExc c \<Rightarrow> Some c | _ \<Rightarrow> None)"
  shows "(xs = [] \<longrightarrow> maybe_reraise s g from_exception unwrap = (s, None))
       \<and> (unwrap \<and> xs = [PExc a] \<and> get_inst s a \<noteq> None \<longrightarrow>
            (\<exists>s' ob'. maybe_reraise s g from_exception unwrap = (s', Some (Exc a))
               \<and> get_inst s' a = Some ob' \<and> exc_cause ob' = cause
               \<and> suppress_context ob' = True))
       \<and> ((\<not> unwrap \<and> xs \<noteq> []) \<or> 2 \<le> length xs \<longrightarrow>
            (\<exists>s' ob'. maybe_reraise s g from_exception unwrap = (s', Some (Exc g))
               \<and> get_inst s' g = Some ob' \<and> exc_cause ob' = cause
               \<and> suppress_context ob' = True))"
proof -
  note G = group_atD[OF assms(1)]
  define f where "f = (if from_exception = PInt 0 then exc_info_1 s else from_exception)"
  have f_ok: "f = PNone \<or> is_BaseException f"
    using assms(2) by (auto simp: f_def exc_info_1_def split: option.splits)
  have f_cause: "(case f of PExc c \<Rightarrow> Some c | _ \<Rightarrow> None) = cause"
    using assms(2) by (auto simp: f_def assms(3) exc_info_1_def split: option.splits)
  have empty: "maybe_reraise s g from_exception unwrap = (s, None)" if "xs = []"
    using that by (simp add: maybe_reraise_def G(3))
  have single: "\<exists>s' ob'. maybe_reraise s g from_exception unwrap = (s', Some (Exc a))
               \<and> get_inst s' a = Some ob' \<and> exc_cause ob' = cause
               \<and> suppress_context ob' = True"
    if "unwrap \<and> xs = [PExc a] \<and> get_inst s a \<noteq> None"
  proof -
    from that obtain oa where oa: "get_inst s a = Some oa" by auto
    from raise_from_exception[OF f_ok oa] obtain s' where
      r: "raise_from s (PExc a) f = (s', Exc a)"
      and o: "get_inst s' a =
               Some (oa\<lparr>exc_cause := (case f of PExc c \<Rightarrow> Some c | _ \<Rightarrow> None),
                        suppress_context := True\<rparr>)"
      by blast
    have "maybe_reraise s g from_exception unwrap = (s', Some (Exc a))"
      using that r by (simp add: maybe_reraise_def G(3) f_def)
    with o f_cause show ?thesis by simp
  qed
  have whole: "\<exists>s' ob'. maybe_reraise s g from_exception unwrap = (s', Some (Exc g))
               \<and> get_inst s' g = Some ob' \<and> exc_cause ob' = cause
               \<and> suppress_context ob' = True"
    if "(\<not> unwrap \<and> xs \<noteq> []) \<or> 2 \<le> length xs"
  proof -
    from that have ne: "xs \<noteq> []" and sel: "\<not> (unwrap \<and> length xs = 1)" by auto
    from raise_from_exception[OF f_ok G(1)] obtain s' where
      r: "raise_from s (PExc g) f = (s', Exc g)"
      and o: "get_inst s' g =
               Some (ob\<lparr>exc_cause := (case f of PExc c \<Rightarrow> Some c | _ \<Rightarrow> None),
                        suppress_context := True\<rparr>)"
      by blast
    have "maybe_reraise s g from_exception unwrap = (s', Some (Exc g))"
      using ne sel r by (auto simp: maybe_reraise_def G(3) f_def)
    with o f_cause show ?thesis by simp
  qed
  from empty single whole show ?thesis by blast
qed

theorem maybe_reraise_outcomes_witness:
  "maybe_reraise ex_store 5 (PInt 0) True = (ex_store, None)
   \<and> (\<exists>s' ob'. maybe_reraise ex_store 4 (PInt 0) True = (s', Some (Exc 3))
         \<and> get_inst s' 3 = Some ob' \<and> exc_cause ob' = Some 1 \<and> suppress_context ob' = True)
   \<and> (\<exists>s' ob'. maybe_reraise ex_store 4 (PExc 0) False = (s', Some (Exc 4))
         \<and> get_inst s' 4 = Some ob' \<and> exc_cause ob' = Some 0 \<and> suppress_context ob' = True)
   \<and> (\<exists>s' ob'. maybe_reraise ex_store 2 PNone True = (s', Some (Exc 2))
         \<and> get_inst s' 2 = Some ob' \<and> exc_cause ob' = None \<and> suppress_context ob' = True)"
proof (intro conjI)
  have h: "handling ex_store = Some 1" by (simp add: ex_store_def)
  have e3: "get_inst ex_store 3 \<noteq> None" by (simp add: ex_store_def get_inst_def)
  show "maybe_reraise ex_store 5 (PInt 0) True = (ex_store, None)"
    using maybe_reraise_outcomes[OF ex_empty_at, of "PInt 0" "Some 1" True] h by simp
  show "\<exists>s' ob'. maybe_reraise ex_store 4 (PInt 0) True = (s', Some (Exc 3))
         \<and> get_inst s' 3 = Some ob' \<and> exc_cause ob' = Some 1 \<and> suppress_context ob' = True"
    using maybe_reraise_outcomes[OF ex_single_at, of "PInt 0" "Some 1" True 3] h e3 by simp
  show "\<exists>s' ob'. maybe_reraise ex_store 4 (PExc 0) False = (s', Some (Exc 4))
         \<and> get_inst s' 4 = Some ob' \<and> exc_cause ob' = Some 0 \<and> suppress_context ob' = True"
    using maybe_reraise_outcomes[OF ex_single_at, of "PExc 0" "Some 0" False] by simp
  show "\<exists>s' ob'. maybe_reraise ex_store 2 PNone True = (s', Some (Exc 2))
         \<and> get_inst s' 2 = Some ob' \<and> exc_cause ob' = None \<and> suppress_context ob' = True"
    using maybe_reraise_outcomes[OF ex_group_at, of PNone None True] by simp
qed

end
